theory Spec2Isabelle
  imports Complex_Main "HOL-Library.Multiset" "HOL-Library.Log_Nat" "HOL-Library.AList"
    "HOL-Library.Word"
begin

unbundle bit_operations_syntax

section \<open>Instants, durations and the domain records\<close>

text \<open>
  A Go \<^verbatim>\<open>time.Time\<close> is an instant together with a location.  The instant is kept as the
  number of nanoseconds since the zero time (January 1, year 1, 00:00:00 UTC), an unbounded
  integer: the range of \<^verbatim>\<open>time.Time\<close> is some hundreds of billions of years wide and
  is not reached by a calendar.  The location is kept as the offset (seconds east of UTC) that is
  in force at a given second.  \<^verbatim>\<open>Before\<close>, \<^verbatim>\<open>After\<close> and \<^verbatim>\<open>IsZero\<close>
  look at the instant only; \<^verbatim>\<open>Hour\<close> reads the wall clock of the location.
\<close>

record Time =
  instant :: int
  zone :: "int \<Rightarrow> int"

definition UTC :: "int \<Rightarrow> int" where
  "UTC = (\<lambda>_. 0)"

definition Before :: "Time \<Rightarrow> Time \<Rightarrow> bool" where
  "Before t u = (instant t < instant u)"

definition After :: "Time \<Rightarrow> Time \<Rightarrow> bool" where
  "After t u = (instant t > instant u)"

definition IsZero :: "Time \<Rightarrow> bool" where
  "IsZero t = (instant t = 0)"

definition Hour :: "Time \<Rightarrow> int" where
  "Hour t = (let sec = instant t div 1000000000
             in ((sec + zone t sec) mod 86400) div 3600)"

text \<open>
  A \<^verbatim>\<open>time.Duration\<close> is a signed 64-bit count of nanoseconds.  It is kept as an integer
  and the places where Go wraps or saturates are written out.
\<close>

type_synonym Duration = int

definition wrap64 :: "int \<Rightarrow> int" where
  "wrap64 i = signed_take_bit 63 i"

definition Minute :: Duration where
  "Minute = 60000000000"

definition minDuration :: Duration where
  "minDuration = - (2 ^ 63)"

definition maxDuration :: Duration where
  "maxDuration = 2 ^ 63 - 1"

definition Add :: "Time \<Rightarrow> Duration \<Rightarrow> Time" where
  "Add t d = t\<lparr>instant := instant t + d\<rparr>"

definition Sub :: "Time \<Rightarrow> Time \<Rightarrow> Duration" where
  "Sub t u = (let d = instant t - instant u
              in if d < minDuration then minDuration
                 else if maxDuration < d then maxDuration else d)"

record CalendarEvent =
  ID :: string
  Title :: string
  StartTime :: Time
  EndTime :: Time
  UserID :: string
  CreatedAt :: Time
  UpdatedAt :: Time

record TimeRange =
  range_Start :: Time
  range_End :: Time

record ScheduleRequest =
  ParticipantIDs :: "string list"
  DurationMinutes :: int
  TimeRange :: TimeRange
  req_Title :: string

text \<open>
  \<^verbatim>\<open>Score\<close> is a \<^verbatim>\<open>float64\<close>.  Every value that the scoring functions can produce is
  finite, so a score is kept as the real number that the 64-bit pattern denotes.
\<close>

type_synonym float64 = real

record TimeSlot =
  Start :: Time
  End :: Time
  Score :: float64

text \<open>
  The events come as a Go map from participant to event list.  A \<^verbatim>\<open>range\<close> over a map
  visits the entries in an order that the language leaves open and that may change from one
  \<^verbatim>\<open>range\<close> statement to the next.  A function with one such statement takes the
  entries as a list, in the order in which that statement visits them.
\<close>

type_synonym entries = "(string \<times> CalendarEvent list) list"

section \<open>The availability predicate\<close>

fun userEventsFree :: "Time \<Rightarrow> Time \<Rightarrow> CalendarEvent list \<Rightarrow> bool" where
  "userEventsFree start end' [] = True"
| "userEventsFree start end' (event # rest) =
     (if \<not> (Before end' (StartTime event) \<or> After start (EndTime event)) then False
      else userEventsFree start end' rest)"

fun isSlotAvailable :: "Time \<Rightarrow> Time \<Rightarrow> entries \<Rightarrow> bool" where
  "isSlotAvailable start end' [] = True"
| "isSlotAvailable start end' ((user, userEvents) # rest) =
     (if userEventsFree start end' userEvents then isSlotAvailable start end' rest else False)"

definition isFree :: "Time \<Rightarrow> Time \<Rightarrow> CalendarEvent \<Rightarrow> bool" where
  "isFree start end' b = (instant end' < instant (StartTime b) \<or> instant (EndTime b) < instant start)"

section \<open>Enumerating the candidate slots\<close>

definition minutesDuration :: "int \<Rightarrow> Duration" where
  \<comment> \<open>\<^verbatim>\<open>time.Duration(n) * time.Minute\<close>: the product wraps at 64 bits.\<close>
  "minutesDuration n = wrap64 (n * Minute)"

definition step15 :: Duration where
  "step15 = 15 * Minute"

text \<open>
  The loop of \<^verbatim>\<open>findAvailableSlots\<close>.  The argument \<open>av k\<close> is the order in which the
  \<^verbatim>\<open>range\<close> of \<^verbatim>\<open>isSlotAvailable\<close> visits the map in the iteration number \<open>k\<close>
  of the loop.  A new slot has the zero score.
\<close>

function findLoop :: "ScheduleRequest \<Rightarrow> (nat \<Rightarrow> entries) \<Rightarrow> nat \<Rightarrow> Time \<Rightarrow> TimeSlot list" where
  "findLoop req av k current =
     (if Before current (range_End (TimeRange req)) then
        (let slotEnd = Add current (minutesDuration (DurationMinutes req))
         in (if Before slotEnd (range_End (TimeRange req)) \<and> isSlotAvailable current slotEnd (av k)
             then [\<lparr>Start = current, End = slotEnd, Score = 0\<rparr>] else [])
            @ findLoop req av (Suc k) (Add current step15))
      else [])"
  by pat_completeness auto
termination
  by (relation "measure (\<lambda>(req, av, k, current).
        nat (instant (range_End (TimeRange req)) - instant current))")
     (auto simp: Before_def Add_def step15_def Minute_def)

declare findLoop.simps [simp del]

definition findAvailableSlots :: "ScheduleRequest \<Rightarrow> (nat \<Rightarrow> entries) \<Rightarrow> TimeSlot list" where
  "findAvailableSlots req av = findLoop req av 0 (range_Start (TimeRange req))"

section \<open>Double precision arithmetic\<close>

text \<open>
  The scores are computed in \<^verbatim>\<open>float64\<close>.  Each operation is the exact operation on the
  reals followed by one rounding to the nearest number with a 53-bit significand, ties to
  the even significand, with the exponent bounded below as for the subnormal numbers.  No
  operand of the scoring functions is large enough to overflow, and none is a NaN.  Each Go
  operation is rounded on its own (no fused multiply-add).
\<close>

definition rne :: "real \<Rightarrow> int" where
  "rne x = (let f = \<lfloor>x\<rfloor>; d = x - of_int f
            in if d < 1 / 2 then f
               else if 1 / 2 < d then f + 1
               else if even f then f else f + 1)"

definition pow2 :: "int \<Rightarrow> real" where
  "pow2 e = (if 0 \<le> e then 2 ^ nat e else 1 / 2 ^ nat (- e))"

definition ilog2 :: "real \<Rightarrow> int" where
  \<comment> \<open>the exponent \<open>e\<close> with \<open>2\<^sup>e \<le> x < 2\<^sup>e\<^sup>+\<^sup>1\<close>, for a positive \<open>x\<close>\<close>
  "ilog2 x = (if 1 \<le> x then bitlen \<lfloor>x\<rfloor> - 1 else - bitlen (\<lceil>1 / x\<rceil> - 1))"

definition round64 :: "real \<Rightarrow> float64" where
  "round64 x = (if x = 0 then 0
     else let q = max (ilog2 \<bar>x\<bar> - 52) (- 1074)
          in of_int (rne (x / pow2 q)) * pow2 q)"

definition fadd :: "float64 \<Rightarrow> float64 \<Rightarrow> float64" where
  "fadd a b = round64 (a + b)"

definition fsub :: "float64 \<Rightarrow> float64 \<Rightarrow> float64" where
  "fsub a b = round64 (a - b)"

definition fmul :: "float64 \<Rightarrow> float64 \<Rightarrow> float64" where
  "fmul a b = round64 (a * b)"

definition fdiv :: "float64 \<Rightarrow> float64 \<Rightarrow> float64" where
  "fdiv a b = round64 (a / b)"

definition float64_of_int :: "int \<Rightarrow> float64" where
  "float64_of_int i = round64 (of_int i)"

definition Minutes :: "Duration \<Rightarrow> float64" where
  \<comment> \<open>Go divides with truncation; the remainder has the sign of the dividend.\<close>
  "Minutes d = (let min = sgn d * (\<bar>d\<bar> div Minute); nsec = sgn d * (\<bar>d\<bar> mod Minute)
                in fadd (float64_of_int min) (fdiv (float64_of_int nsec) (round64 (60 * 1000000000))))"

section \<open>Scoring\<close>

definition workingHoursWeight :: float64 where "workingHoursWeight = round64 1"
definition earlySlotWeight :: float64 where "earlySlotWeight = round64 (8 / 10)"
definition gapMinimizationWeight :: float64 where "gapMinimizationWeight = round64 (6 / 10)"
definition bufferTimeWeight :: float64 where "bufferTimeWeight = round64 (4 / 10)"
definition desiredBufferTime :: int where "desiredBufferTime = 15"
definition workDayStart :: int where "workDayStart = 9"
definition workDayEnd :: int where "workDayEnd = 17"

definition workingHoursScore :: "TimeSlot \<Rightarrow> float64" where
  "workingHoursScore slot =
     (let hour = Hour (Start slot)
      in if hour \<ge> workDayStart \<and> hour < workDayEnd then 1
         else if hour \<ge> workDayStart - 1 \<and> hour < workDayStart
                 \<or> hour \<ge> workDayEnd \<and> hour < workDayEnd + 1 then 1 / 2
         else 0)"

definition earlySlotScore :: "TimeSlot \<Rightarrow> float64" where
  "earlySlotScore slot =
     (let hour = float64_of_int (Hour (Start slot))
      in if hour \<ge> float64_of_int workDayStart \<and> hour \<le> float64_of_int workDayEnd
         then fsub 1 (fdiv (fsub hour (float64_of_int workDayStart))
                           (float64_of_int (workDayEnd - workDayStart)))
         else 0)"

definition gapPenalty :: "float64 \<Rightarrow> float64 \<Rightarrow> float64" where
  \<comment> \<open>the body shared by the two \<^verbatim>\<open>if\<close> statements of \<^verbatim>\<open>gapMinimizationScore\<close>\<close>
  "gapPenalty score gap =
     (if gap < float64_of_int desiredBufferTime then fmul score (round64 (5 / 10))
      else if gap > 60 then fmul score (round64 (8 / 10))
      else score)"

definition gapEvent :: "TimeSlot \<Rightarrow> float64 \<Rightarrow> CalendarEvent \<Rightarrow> float64" where
  "gapEvent slot score event =
     (let score1 = (if Before (EndTime event) (Start slot)
                    then gapPenalty score (Minutes (Sub (Start slot) (EndTime event)))
                    else score)
      in if After (StartTime event) (End slot)
         then gapPenalty score1 (Minutes (Sub (StartTime event) (End slot)))
         else score1)"

definition gapUser :: "TimeSlot \<Rightarrow> CalendarEvent list \<Rightarrow> float64" where
  "gapUser slot userEvents = foldl (gapEvent slot) 1 userEvents"

definition average :: "float64 list \<Rightarrow> float64" where
  \<comment> \<open>\<^verbatim>\<open>totalScore\<close> and \<^verbatim>\<open>count\<close> after the outer loop, and the final division\<close>
  "average scores =
     (let totalScore = foldl fadd 0 scores; count = length scores
      in if count = 0 then 1 else fdiv totalScore (float64_of_int (int count)))"

definition gapMinimizationScore :: "TimeSlot \<Rightarrow> entries \<Rightarrow> float64" where
  "gapMinimizationScore slot events = average (map (\<lambda>(user, userEvents). gapUser slot userEvents) events)"

definition bufferPenalty :: "float64 \<Rightarrow> float64 \<Rightarrow> float64" where
  "bufferPenalty score buffer =
     (if buffer < float64_of_int desiredBufferTime
      then fmul score (fdiv buffer (float64_of_int desiredBufferTime))
      else score)"

definition bufferEvent :: "TimeSlot \<Rightarrow> float64 \<Rightarrow> CalendarEvent \<Rightarrow> float64" where
  "bufferEvent slot score event =
     (let score1 = (if Before (EndTime event) (Start slot)
                    then bufferPenalty score (Minutes (Sub (Start slot) (EndTime event)))
                    else score)
      in if After (StartTime event) (End slot)
         then bufferPenalty score1 (Minutes (Sub (StartTime event) (End slot)))
         else score1)"

definition bufferUser :: "TimeSlot \<Rightarrow> CalendarEvent list \<Rightarrow> float64" where
  "bufferUser slot userEvents = foldl (bufferEvent slot) 1 userEvents"

definition bufferTimeScore :: "TimeSlot \<Rightarrow> entries \<Rightarrow> float64" where
  "bufferTimeScore slot events = average (map (\<lambda>(user, userEvents). bufferUser slot userEvents) events)"

text \<open>
  \<^verbatim>\<open>calculateSlotScore\<close> ranges over the map twice, once in each of the two gap scores; the
  two orders are its second and third argument.
\<close>

definition calculateSlotScore :: "TimeSlot \<Rightarrow> entries \<Rightarrow> entries \<Rightarrow> float64" where
  "calculateSlotScore slot gapOrder bufferOrder =
     (let score = 0;
          score = fadd score (fmul (workingHoursScore slot) workingHoursWeight);
          score = fadd score (fmul (earlySlotScore slot) earlySlotWeight);
          score = fadd score (fmul (gapMinimizationScore slot gapOrder) gapMinimizationWeight);
          score = fadd score (fmul (bufferTimeScore slot bufferOrder) bufferTimeWeight)
      in score)"

section \<open>Selecting the best slot\<close>

text \<open>
  \<^verbatim>\<open>FindOptimalSlot\<close> ranges over the map once in every iteration of the enumeration loop
  and twice for every slot that it scores.  Its events argument gives, for each of these places,
  the order in which the entries are visited there.
\<close>

datatype RangeSite = AvailableSite nat | GapSite nat | BufferSite nat

type_synonym events_map = "RangeSite \<Rightarrow> entries"

definition scoreSlots :: "TimeSlot list \<Rightarrow> events_map \<Rightarrow> TimeSlot list" where
  "scoreSlots slots events =
     map (\<lambda>(i, slot). slot\<lparr>Score := calculateSlotScore slot (events (GapSite i)) (events (BufferSite i))\<rparr>)
         (enumerate 0 slots)"

definition byScore :: "TimeSlot \<Rightarrow> TimeSlot \<Rightarrow> bool" where
  \<comment> \<open>the comparison handed to \<^verbatim>\<open>sort.Slice\<close>\<close>
  "byScore a b = (Score a > Score b)"

datatype error =
    ErrInvalidRequest
  | ErrNoAvailableSlot
  | ErrUserNotFound
  | ErrInternalError
  | Validation string

datatype 'a outcome = Returns 'a | Panics

text \<open>
  \<^verbatim>\<open>sort.Slice\<close> belongs to the Go library and is an argument \<open>sortSlice\<close> here: it
  takes the comparison and the slice and gives the slice as it is after the call.  The index
  expression \<^verbatim>\<open>scoredSlots[0]\<close> panics on an empty slice.
\<close>

type_synonym sorter = "(TimeSlot \<Rightarrow> TimeSlot \<Rightarrow> bool) \<Rightarrow> TimeSlot list \<Rightarrow> TimeSlot list"

definition FindOptimalSlot ::
  "sorter \<Rightarrow> ScheduleRequest \<Rightarrow> events_map \<Rightarrow> (TimeSlot option \<times> error option) outcome" where
  "FindOptimalSlot sortSlice req events =
     (let availableSlots = findAvailableSlots req (\<lambda>k. events (AvailableSite k))
      in if length availableSlots = 0 then Returns (None, None)
         else (let scoredSlots = scoreSlots availableSlots events
               in case sortSlice byScore scoredSlots of
                    [] \<Rightarrow> Panics
                  | best # _ \<Rightarrow> Returns (Some best, None)))"

section \<open>The request validator\<close>

definition msgNoParticipants :: string where
  "msgNoParticipants = ''at least one participant is required''"
definition msgEmptyID :: string where
  "msgEmptyID = ''participant ID cannot be empty''"
definition msgDuplicate :: string where
  "msgDuplicate = ''duplicate participant IDs are not allowed''"
definition msgDurationLow :: string where
  "msgDurationLow = ''duration must be greater than 0 minutes''"
definition msgDurationHigh :: string where
  "msgDurationHigh = ''duration cannot exceed 8 hours (480 minutes)''"
definition msgNoStart :: string where
  "msgNoStart = ''start time is required''"
definition msgNoEnd :: string where
  "msgNoEnd = ''end time is required''"
definition msgStartAfterEnd :: string where
  "msgStartAfterEnd = ''start time must be before end time''"
definition msgPast :: string where
  "msgPast = ''start time cannot be in the past. Please enter a valid future start date.''"
definition msgFarFuture :: string where
  "msgFarFuture = ''end time cannot be more than 1 year in the future''"
definition msgNoFit :: string where
  "msgNoFit = ''duration does not fit within the specified time range''"

text \<open>The loop over the participant identifiers, with the set of the identifiers seen so far.\<close>

fun checkParticipants :: "string list \<Rightarrow> string set \<Rightarrow> string option" where
  "checkParticipants [] participantMap = None"
| "checkParticipants (uid # ids) participantMap =
     (if uid = [] then Some msgEmptyID
      else if uid \<in> participantMap then Some msgDuplicate
      else checkParticipants ids (insert uid participantMap))"

text \<open>
  \<^verbatim>\<open>time.Now\<close> is the argument \<open>clock\<close>, a step on a state of the surroundings, and
  \<^verbatim>\<open>Time.AddDate\<close> of the Go library is the argument \<open>addDate\<close>.  The result is the
  message of the error, or \<open>None\<close> for \<^verbatim>\<open>nil\<close>.
\<close>

definition validateScheduleRequest ::
  "(Time \<Rightarrow> int \<Rightarrow> int \<Rightarrow> int \<Rightarrow> Time) \<Rightarrow> ('w \<Rightarrow> Time \<times> 'w) \<Rightarrow> ScheduleRequest \<Rightarrow> 'w
     \<Rightarrow> string option \<times> 'w" where
  "validateScheduleRequest addDate clock req w =
     (if length (ParticipantIDs req) = 0 then (Some msgNoParticipants, w)
      else case checkParticipants (ParticipantIDs req) {} of
        Some err \<Rightarrow> (Some err, w)
      | None \<Rightarrow>
          if DurationMinutes req \<le> 0 then (Some msgDurationLow, w)
          else if DurationMinutes req > 480 then (Some msgDurationHigh, w)
          else if IsZero (range_Start (TimeRange req)) then (Some msgNoStart, w)
          else if IsZero (range_End (TimeRange req)) then (Some msgNoEnd, w)
          else if After (range_Start (TimeRange req)) (range_End (TimeRange req))
            then (Some msgStartAfterEnd, w)
          else (let (now, w') = clock w
                in if Before (range_Start (TimeRange req)) now then (Some msgPast, w')
                   else (let maxFuture = addDate now 1 0 0
                         in if After (range_End (TimeRange req)) maxFuture then (Some msgFarFuture, w')
                            else (let duration = minutesDuration (DurationMinutes req)
                                  in if After (Add (range_Start (TimeRange req)) duration)
                                              (range_End (TimeRange req))
                                     then (Some msgNoFit, w')
                                     else (None, w')))))"

section \<open>The scheduling service\<close>

record ScheduleResponse =
  MeetingID :: string
  resp_Title :: string
  resp_ParticipantIDs :: "string list"
  resp_StartTime :: Time
  resp_EndTime :: Time

text \<open>
  The service works on a state \<open>'w\<close> of its surroundings: the repository behind the
  \<^verbatim>\<open>Repository\<close> interface, the clock and the source of the identifiers.  Each operation
  is a step on that state.  A repository operation gives \<open>False\<close> or \<open>None\<close> where
  the Go method gives an error.  The library functions \<^verbatim>\<open>Time.AddDate\<close> and
  \<^verbatim>\<open>sort.Slice\<close> and the order in which the runtime visits a map with given entries
  are part of the surroundings too.
\<close>

record 'w Surroundings =
  GetUser :: "string \<Rightarrow> 'w \<Rightarrow> bool \<times> 'w"
  GetUserEvents :: "string \<Rightarrow> Time \<Rightarrow> Time \<Rightarrow> 'w \<Rightarrow> CalendarEvent list option \<times> 'w"
  CreateEvent :: "CalendarEvent \<Rightarrow> 'w \<Rightarrow> bool \<times> 'w"
  newUUID :: "'w \<Rightarrow> string \<times> 'w"
  timeNow :: "'w \<Rightarrow> Time \<times> 'w"
  AddDate :: "Time \<Rightarrow> int \<Rightarrow> int \<Rightarrow> int \<Rightarrow> Time"
  sortSlice :: sorter
  mapRange :: "entries \<Rightarrow> events_map"

definition NewCalendarEvent ::
  "'w Surroundings \<Rightarrow> string \<Rightarrow> Time \<Rightarrow> Time \<Rightarrow> string \<Rightarrow> 'w \<Rightarrow> CalendarEvent \<times> 'w" where
  "NewCalendarEvent env title startTime endTime userID w =
     (let (uuid, w1) = newUUID env w;
          (created, w2) = timeNow env w1;
          (updated, w3) = timeNow env w2
      in (\<lparr>ID = uuid, Title = title, StartTime = startTime, EndTime = endTime,
           UserID = userID, CreatedAt = created, UpdatedAt = updated\<rparr>, w3))"

fun checkUsers :: "'w Surroundings \<Rightarrow> string list \<Rightarrow> 'w \<Rightarrow> bool \<times> 'w" where
  "checkUsers env [] w = (True, w)"
| "checkUsers env (userID # rest) w =
     (let (found, w') = GetUser env userID w
      in if found then checkUsers env rest w' else (False, w'))"

fun fetchEvents ::
  "'w Surroundings \<Rightarrow> ScheduleRequest \<Rightarrow> string list \<Rightarrow> entries \<Rightarrow> 'w \<Rightarrow> entries option \<times> 'w" where
  "fetchEvents env req [] allEvents w = (Some allEvents, w)"
| "fetchEvents env req (userID # rest) allEvents w =
     (let (r, w') = GetUserEvents env userID (range_Start (TimeRange req)) (range_End (TimeRange req)) w
      in case r of
           None \<Rightarrow> (None, w')
         | Some events \<Rightarrow> fetchEvents env req rest (AList.update userID events allEvents) w')"

fun createEvents ::
  "'w Surroundings \<Rightarrow> string \<Rightarrow> TimeSlot \<Rightarrow> string list \<Rightarrow> 'w \<Rightarrow> bool \<times> 'w" where
  "createEvents env meetingTitle slot [] w = (True, w)"
| "createEvents env meetingTitle slot (userID # rest) w =
     (let (event, w1) = NewCalendarEvent env meetingTitle (Start slot) (End slot) userID w;
          (ok, w2) = CreateEvent env event w1
      in if ok then createEvents env meetingTitle slot rest w2 else (False, w2))"

definition Schedule ::
  "'w Surroundings \<Rightarrow> ScheduleRequest \<Rightarrow> 'w \<Rightarrow> ((error + ScheduleResponse) \<times> 'w) outcome" where
  "Schedule env req w =
     (case validateScheduleRequest (AddDate env) (timeNow env) req w of
        (Some err, w0) \<Rightarrow> Returns (Inl (Validation err), w0)
      | (None, w0) \<Rightarrow>
         (case checkUsers env (ParticipantIDs req) w0 of
            (False, w1) \<Rightarrow> Returns (Inl ErrUserNotFound, w1)
          | (True, w1) \<Rightarrow>
             (case fetchEvents env req (ParticipantIDs req) [] w1 of
                (None, w2) \<Rightarrow> Returns (Inl ErrInternalError, w2)
              | (Some allEvents, w2) \<Rightarrow>
                 (case FindOptimalSlot (sortSlice env) req (mapRange env allEvents) of
                    Panics \<Rightarrow> Panics
                  | Returns (_, Some err) \<Rightarrow> Returns (Inl ErrInternalError, w2)
                  | Returns (None, None) \<Rightarrow> Returns (Inl ErrNoAvailableSlot, w2)
                  | Returns (Some slot, None) \<Rightarrow>
                     (let (meetingID, w3) = newUUID env w2;
                          meetingTitle = (if req_Title req = [] then ''New Meeting'' else req_Title req)
                      in case createEvents env meetingTitle slot (ParticipantIDs req) w3 of
                           (False, w4) \<Rightarrow> Returns (Inl ErrInternalError, w4)
                         | (True, w4) \<Rightarrow>
                             Returns (Inr \<lparr>MeetingID = meetingID, resp_Title = meetingTitle,
                                            resp_ParticipantIDs = ParticipantIDs req,
                                            resp_StartTime = Start slot, resp_EndTime = End slot\<rparr>,
                                      w4))))))"

section \<open>Test data\<close>

text \<open>
  The instants of the tests of the repository: \<open>on_2024_09_01 h m\<close> is
  \<^verbatim>\<open>2024-09-01Thh:mm:00Z\<close>, which is 739129 days after the zero time.  \<open>busy\<close> is the
  event literal of the tests, with a start and an end and the zero value in every other field.
\<close>

definition on_2024_09_01 :: "int \<Rightarrow> int \<Rightarrow> Time" where
  "on_2024_09_01 h m = \<lparr>instant = (739129 * 86400 + h * 3600 + m * 60) * 1000000000, zone = UTC\<rparr>"

definition zeroTime :: Time where
  "zeroTime = \<lparr>instant = 0, zone = UTC\<rparr>"

definition busy :: "Time \<Rightarrow> Time \<Rightarrow> CalendarEvent" where
  "busy s e = \<lparr>ID = [], Title = [], StartTime = s, EndTime = e, UserID = [],
               CreatedAt = zeroTime, UpdatedAt = zeroTime\<rparr>"

definition request :: "string list \<Rightarrow> int \<Rightarrow> Time \<Rightarrow> Time \<Rightarrow> ScheduleRequest" where
  "request ids minutes s e =
     \<lparr>ParticipantIDs = ids, DurationMinutes = minutes,
      TimeRange = \<lparr>range_Start = s, range_End = e\<rparr>, req_Title = []\<rparr>"

text \<open>
  For the validator: a clock that shows a fixed instant, on a state without content, and a
  stand-in for \<^verbatim>\<open>Time.AddDate\<close> that takes a year as 365 days and a month as 30 days.
\<close>

definition fixedClock :: "Time \<Rightarrow> unit \<Rightarrow> Time \<times> unit" where
  "fixedClock t w = (t, w)"

definition addDateFlat :: "Time \<Rightarrow> int \<Rightarrow> int \<Rightarrow> int \<Rightarrow> Time" where
  "addDateFlat t years months days = Add t ((365 * years + 30 * months + days) * 1440 * Minute)"

section \<open>What the selection takes from the sort\<close>

text \<open>
  The library documents \<^verbatim>\<open>sort.Slice\<close> as sorting the slice by the comparison, without
  a promise of stability.  \<open>sortSlice_sorts\<close> is that contract for the comparison
  \<open>byScore\<close>: the result is a rearrangement of the slice, and no element of it is followed
  by one that the comparison puts before it.  \<open>sortSlice_stable\<close> says in addition that slots
  of equal score keep their order.
\<close>

definition sortSlice_sorts :: "sorter \<Rightarrow> bool" where
  "sortSlice_sorts srt \<longleftrightarrow>
     (\<forall>xs. mset (srt byScore xs) = mset xs
         \<and> sorted_wrt (\<lambda>a b. \<not> byScore b a) (srt byScore xs))"

definition sortSlice_stable :: "sorter \<Rightarrow> bool" where
  "sortSlice_stable srt \<longleftrightarrow>
     (\<forall>xs v. filter (\<lambda>t. Score t = v) (srt byScore xs) = filter (\<lambda>t. Score t = v) xs)"

text \<open>
  \<open>insertionSort\<close> is the insertion sort by adjacent swaps as a function on lists: each
  element sinks towards the front while the comparison puts it before its left neighbour
  (\<open>sink\<close> takes the part already sorted in reverse, nearest neighbour first).  It meets
  the contract, it is stable, and it is what the sort of the library does on a slice of at most
  12 elements.
\<close>

fun sink :: "('a \<Rightarrow> 'a \<Rightarrow> bool) \<Rightarrow> 'a \<Rightarrow> 'a list \<Rightarrow> 'a list" where
  "sink lt x [] = [x]"
| "sink lt x (y # ys) = (if lt x y then y # sink lt x ys else x # y # ys)"

definition insertionSort :: "('a \<Rightarrow> 'a \<Rightarrow> bool) \<Rightarrow> 'a list \<Rightarrow> 'a list" where
  "insertionSort lt xs = rev (foldl (\<lambda>front x. sink lt x front) [] xs)"

section \<open>The order of the checks\<close>

text \<open>
  The specification lists the checks of the validator in a fixed order, the first failing check
  giving the error.  \<open>firstFailure\<close> is that discipline for a list of checks, each a
  condition under which the check fails and the message it then gives.
\<close>

fun firstFailure :: "(bool \<times> string) list \<Rightarrow> string option" where
  "firstFailure [] = None"
| "firstFailure ((failed, err) # checks) = (if failed then Some err else firstFailure checks)"

text \<open>
  An identifier offends when it is empty or repeats an earlier identifier of the list;
  \<open>firstOffender ids i\<close> says that position \<open>i\<close> is the first one that holds an offending
  identifier.
\<close>

definition offends :: "string list \<Rightarrow> nat \<Rightarrow> bool" where
  "offends ids i \<longleftrightarrow> i < length ids \<and> (ids ! i = [] \<or> ids ! i \<in> set (take i ids))"

definition firstOffender :: "string list \<Rightarrow> nat \<Rightarrow> bool" where
  "firstOffender ids i \<longleftrightarrow> offends ids i \<and> (\<forall>j < i. \<not> offends ids j)"

text \<open>The same with a set of identifiers that were seen before the list.\<close>

definition offendsFrom :: "string set \<Rightarrow> string list \<Rightarrow> nat \<Rightarrow> bool" where
  "offendsFrom seen ids i \<longleftrightarrow> i < length ids \<and> (ids ! i = [] \<or> ids ! i \<in> seen \<union> set (take i ids))"

text \<open>
  Surroundings after the mock repository of the tests: the state is the stored map from
  participant to events, the users are a fixed list, the events of a user are those that lie
  inside the queried window, and creating an event appends it to the list of its user.  The
  clock shows a fixed instant, every identifier drawn is the same, the sort is the insertion
  sort and every visit of a map goes through the entries in the order in which they are stored.
\<close>

definition storedEvents :: "entries \<Rightarrow> string \<Rightarrow> CalendarEvent list" where
  "storedEvents w userID = (case map_of w userID of None \<Rightarrow> [] | Some events \<Rightarrow> events)"

definition mockSurroundings :: "string list \<Rightarrow> Time \<Rightarrow> entries Surroundings" where
  "mockSurroundings users now =
     \<lparr>GetUser = (\<lambda>userID w. (userID \<in> set users, w)),
      GetUserEvents = (\<lambda>userID s e w.
         (Some (filter (\<lambda>event. instant s \<le> instant (StartTime event)
                                \<and> instant (EndTime event) \<le> instant e)
                       (storedEvents w userID)), w)),
      CreateEvent = (\<lambda>event w.
         (True, AList.update (UserID event) (storedEvents w (UserID event) @ [event]) w)),
      newUUID = (\<lambda>w. (''00000000-0000-0000-0000-000000000000'', w)),
      timeNow = (\<lambda>w. (now, w)),
      AddDate = addDateFlat,
      sortSlice = insertionSort,
      mapRange = (\<lambda>es site. es)\<rparr>"

text \<open>
  Three participants with one, two and three meetings in the afternoon, and the visiting orders
  of two runs over this map: every visit takes the entries as they are listed, except the visit
  of \<^verbatim>\<open>gapMinimizationScore\<close> for the candidate number \<open>i\<close>, which takes them backwards.
\<close>

definition afternoons :: entries where
  "afternoons =
     [(''user1'', [busy (on_2024_09_01 12 0) (on_2024_09_01 13 0)]),
      (''user2'', [busy (on_2024_09_01 12 0) (on_2024_09_01 13 0),
                   busy (on_2024_09_01 13 0) (on_2024_09_01 14 0)]),
      (''user3'', [busy (on_2024_09_01 12 0) (on_2024_09_01 13 0),
                   busy (on_2024_09_01 13 0) (on_2024_09_01 14 0),
                   busy (on_2024_09_01 14 0) (on_2024_09_01 15 0)])]"

definition backwardsAt :: "nat \<Rightarrow> entries \<Rightarrow> events_map" where
  "backwardsAt i es site = (if site = GapSite i then rev es else es)"

section \<open>The sort of the Go library\<close>

text \<open>
  \<^verbatim>\<open>sort.Slice\<close> is not part of the repository.  This section follows the source of the
  library (\<^verbatim>\<open>sort/slice.go\<close> and \<^verbatim>\<open>sort/zsortfunc.go\<close>, Go 1.19 and later; the
  repository asks for Go 1.21 or later): a pattern-defeating quicksort that sorts a range of at
  most 12 elements by insertion, falls back to a heap sort after too many unbalanced partitions,
  and gives up early on a range that a few steps of insertion show to be in order.  The slice is
  a list, the indices are integers as in Go, and every function that swaps elements returns the
  slice after its swaps.  The library reaches the elements through the comparison and the swap
  of two indices only, which are \<open>Less\<close> and \<open>Swap\<close> here.  No index that the sort uses
  on a range inside the slice lies outside the slice.
\<close>

definition quo :: "int \<Rightarrow> int \<Rightarrow> int" where
  \<comment> \<open>the integer division of Go, which truncates towards zero\<close>
  "quo x y = sgn x * sgn y * (\<bar>x\<bar> div \<bar>y\<bar>)"

definition item :: "'a list \<Rightarrow> int \<Rightarrow> 'a" where
  "item data i = data ! nat i"

definition Less :: "('a \<Rightarrow> 'a \<Rightarrow> bool) \<Rightarrow> 'a list \<Rightarrow> int \<Rightarrow> int \<Rightarrow> bool" where
  "Less lt data i j = lt (item data i) (item data j)"

definition Swap :: "'a list \<Rightarrow> int \<Rightarrow> int \<Rightarrow> 'a list" where
  "Swap data i j = (data[nat i := item data j])[nat j := item data i]"

function insertionInner :: "('a \<Rightarrow> 'a \<Rightarrow> bool) \<Rightarrow> 'a list \<Rightarrow> int \<Rightarrow> int \<Rightarrow> 'a list" where
  "insertionInner lt data a j =
     (if j > a \<and> Less lt data j (j - 1) then insertionInner lt (Swap data j (j - 1)) a (j - 1)
      else data)"
  by pat_completeness auto
termination
  by (relation "measure (\<lambda>(lt, data, a, j). nat (j - a))") auto

declare insertionInner.simps [simp del]

function insertionOuter :: "('a \<Rightarrow> 'a \<Rightarrow> bool) \<Rightarrow> 'a list \<Rightarrow> int \<Rightarrow> int \<Rightarrow> int \<Rightarrow> 'a list" where
  "insertionOuter lt data a b i =
     (if i < b then insertionOuter lt (insertionInner lt data a i) a b (i + 1) else data)"
  by pat_completeness auto
termination
  by (relation "measure (\<lambda>(lt, data, a, b, i). nat (b - i))") auto

declare insertionOuter.simps [simp del]

definition insertionSort_func :: "('a \<Rightarrow> 'a \<Rightarrow> bool) \<Rightarrow> 'a list \<Rightarrow> int \<Rightarrow> int \<Rightarrow> 'a list" where
  "insertionSort_func lt data a b = insertionOuter lt data a b (a + 1)"

function siftDown_func :: "('a \<Rightarrow> 'a \<Rightarrow> bool) \<Rightarrow> 'a list \<Rightarrow> nat \<Rightarrow> int \<Rightarrow> int \<Rightarrow> 'a list" where
  "siftDown_func lt data node hi first =
     (let child = 2 * int node + 1
      in if child \<ge> hi then data
         else (let child = (if child + 1 < hi \<and> Less lt data (first + child) (first + child + 1)
                            then child + 1 else child)
               in if \<not> Less lt data (first + int node) (first + child) then data
                  else siftDown_func lt (Swap data (first + int node) (first + child)) (nat child) hi first))"
  by pat_completeness auto
termination
  by (relation "measure (\<lambda>(lt, data, node, hi, first). nat (hi - int node))") (auto simp: Let_def)

declare siftDown_func.simps [simp del]

function heapBuild :: "('a \<Rightarrow> 'a \<Rightarrow> bool) \<Rightarrow> 'a list \<Rightarrow> int \<Rightarrow> int \<Rightarrow> int \<Rightarrow> 'a list" where
  "heapBuild lt data hi first i =
     (if i \<ge> 0 then heapBuild lt (siftDown_func lt data (nat i) hi first) hi first (i - 1) else data)"
  by pat_completeness auto
termination
  by (relation "measure (\<lambda>(lt, data, hi, first, i). nat (i + 1))") auto

declare heapBuild.simps [simp del]

function heapPop :: "('a \<Rightarrow> 'a \<Rightarrow> bool) \<Rightarrow> 'a list \<Rightarrow> int \<Rightarrow> int \<Rightarrow> 'a list" where
  "heapPop lt data first i =
     (if i \<ge> 0 then heapPop lt (siftDown_func lt (Swap data first (first + i)) 0 i first) first (i - 1)
      else data)"
  by pat_completeness auto
termination
  by (relation "measure (\<lambda>(lt, data, first, i). nat (i + 1))") auto

declare heapPop.simps [simp del]

definition heapSort_func :: "('a \<Rightarrow> 'a \<Rightarrow> bool) \<Rightarrow> 'a list \<Rightarrow> int \<Rightarrow> int \<Rightarrow> 'a list" where
  "heapSort_func lt data a b =
     (let first = a; hi = b - a;
          data = heapBuild lt data hi first (quo (hi - 1) 2)
      in heapPop lt data first (hi - 1))"


datatype sortedHint = unknownHint | increasingHint | decreasingHint

definition order2_func :: "('a \<Rightarrow> 'a \<Rightarrow> bool) \<Rightarrow> 'a list \<Rightarrow> int \<Rightarrow> int \<Rightarrow> int \<Rightarrow> int \<times> int \<times> int" where
  "order2_func lt data a b swaps =
     (if Less lt data b a then (b, a, swaps + 1) else (a, b, swaps))"

definition median_func :: "('a \<Rightarrow> 'a \<Rightarrow> bool) \<Rightarrow> 'a list \<Rightarrow> int \<Rightarrow> int \<Rightarrow> int \<Rightarrow> int \<Rightarrow> int \<times> int" where
  "median_func lt data a b c swaps =
     (let (a, b, swaps) = order2_func lt data a b swaps;
          (b, c, swaps) = order2_func lt data b c swaps;
          (a, b, swaps) = order2_func lt data a b swaps
      in (b, swaps))"

definition medianAdjacent_func :: "('a \<Rightarrow> 'a \<Rightarrow> bool) \<Rightarrow> 'a list \<Rightarrow> int \<Rightarrow> int \<Rightarrow> int \<times> int" where
  "medianAdjacent_func lt data a swaps = median_func lt data (a - 1) a (a + 1) swaps"

definition choosePivot_func :: "('a \<Rightarrow> 'a \<Rightarrow> bool) \<Rightarrow> 'a list \<Rightarrow> int \<Rightarrow> int \<Rightarrow> int \<times> sortedHint" where
  "choosePivot_func lt data a b =
     (let l = b - a; swaps = 0;
          i = a + quo l 4 * 1; j = a + quo l 4 * 2; k = a + quo l 4 * 3;
          (j, swaps) =
            (if l \<ge> 8 then
               (let (i, j, k, swaps) =
                      (if l \<ge> 50 then
                         (let (i, swaps) = medianAdjacent_func lt data i swaps;
                              (j, swaps) = medianAdjacent_func lt data j swaps;
                              (k, swaps) = medianAdjacent_func lt data k swaps
                          in (i, j, k, swaps))
                       else (i, j, k, swaps))
                in median_func lt data i j k swaps)
             else (j, swaps))
      in if swaps = 0 then (j, increasingHint)
         else if swaps = 4 * 3 then (j, decreasingHint)
         else (j, unknownHint))"

function reverseLoop :: "'a list \<Rightarrow> int \<Rightarrow> int \<Rightarrow> 'a list" where
  "reverseLoop data i j = (if i < j then reverseLoop (Swap data i j) (i + 1) (j - 1) else data)"
  by pat_completeness auto
termination
  by (relation "measure (\<lambda>(data, i, j). nat (j - i))") auto

declare reverseLoop.simps [simp del]

definition reverseRange_func :: "'a list \<Rightarrow> int \<Rightarrow> int \<Rightarrow> 'a list" where
  "reverseRange_func data a b = reverseLoop data a (b - 1)"

text \<open>The scans of the partitions and of the partial insertion sort.\<close>

function skipOrdered :: "('a \<Rightarrow> 'a \<Rightarrow> bool) \<Rightarrow> 'a list \<Rightarrow> int \<Rightarrow> int \<Rightarrow> int" where
  \<comment> \<open>\<^verbatim>\<open>for i < b && !data.Less(i, i-1) { i++ }\<close>\<close>
  "skipOrdered lt data i b =
     (if i < b \<and> \<not> Less lt data i (i - 1) then skipOrdered lt data (i + 1) b else i)"
  by pat_completeness auto
termination
  by (relation "measure (\<lambda>(lt, data, i, b). nat (b - i))") auto

declare skipOrdered.simps [simp del]

function shiftLeft :: "('a \<Rightarrow> 'a \<Rightarrow> bool) \<Rightarrow> 'a list \<Rightarrow> int \<Rightarrow> 'a list" where
  "shiftLeft lt data j =
     (if j \<ge> 1 then
        (if \<not> Less lt data j (j - 1) then data else shiftLeft lt (Swap data j (j - 1)) (j - 1))
      else data)"
  by pat_completeness auto
termination
  by (relation "measure (\<lambda>(lt, data, j). nat j)") auto

declare shiftLeft.simps [simp del]

function shiftRight :: "('a \<Rightarrow> 'a \<Rightarrow> bool) \<Rightarrow> 'a list \<Rightarrow> int \<Rightarrow> int \<Rightarrow> 'a list" where
  "shiftRight lt data j b =
     (if j < b then
        (if \<not> Less lt data j (j - 1) then data else shiftRight lt (Swap data j (j - 1)) (j + 1) b)
      else data)"
  by pat_completeness auto
termination
  by (relation "measure (\<lambda>(lt, data, j, b). nat (b - j))") auto

declare shiftRight.simps [simp del]

primrec partialLoop :: "('a \<Rightarrow> 'a \<Rightarrow> bool) \<Rightarrow> nat \<Rightarrow> 'a list \<Rightarrow> int \<Rightarrow> int \<Rightarrow> int \<Rightarrow> 'a list \<times> bool" where
  \<comment> \<open>the first argument counts the steps that are left of \<^verbatim>\<open>maxSteps\<close>\<close>
  "partialLoop lt 0 data a b i = (data, False)"
| "partialLoop lt (Suc steps) data a b i =
     (let i = skipOrdered lt data i b
      in if i = b then (data, True)
         else if b - a < 50 then (data, False)
         else (let data = Swap data i (i - 1);
                   data = (if i - a \<ge> 2 then shiftLeft lt data (i - 1) else data);
                   data = (if b - i \<ge> 2 then shiftRight lt data (i + 1) b else data)
               in partialLoop lt steps data a b i))"

definition partialInsertionSort_func :: "('a \<Rightarrow> 'a \<Rightarrow> bool) \<Rightarrow> 'a list \<Rightarrow> int \<Rightarrow> int \<Rightarrow> 'a list \<times> bool" where
  "partialInsertionSort_func lt data a b = partialLoop lt 5 data a b (a + 1)"

definition xorshiftNext :: "64 word \<Rightarrow> 64 word" where
  "xorshiftNext r =
     (let r = r XOR push_bit 13 r;
          r = r XOR drop_bit 7 r;
          r = r XOR push_bit 17 r
      in r)"

definition bitsLen :: "int \<Rightarrow> nat" where
  \<comment> \<open>\<^verbatim>\<open>bits.Len(uint(n))\<close> for a length \<open>n\<close>\<close>
  "bitsLen n = floorlog 2 (nat n)"

definition nextPowerOfTwo :: "int \<Rightarrow> 64 word" where
  "nextPowerOfTwo len = push_bit (bitsLen len) 1"

primrec breakLoop :: "nat \<Rightarrow> 'a list \<Rightarrow> int \<Rightarrow> int \<Rightarrow> 64 word \<Rightarrow> int \<Rightarrow> 64 word \<Rightarrow> int \<Rightarrow> 'a list" where
  \<comment> \<open>the first argument counts the rounds that are left of the three\<close>
  "breakLoop 0 data a len modulus idx random i = data"
| "breakLoop (Suc rounds) data a len modulus idx random i =
     (let random = xorshiftNext random;
          other = uint (random AND (modulus - 1));
          other = (if other \<ge> len then other - len else other)
      in breakLoop rounds (Swap data (idx - 1 + i) (a + other)) a len modulus idx random (i + 1))"

definition breakPatterns_func :: "'a list \<Rightarrow> int \<Rightarrow> int \<Rightarrow> 'a list" where
  "breakPatterns_func data a b =
     (let len = b - a
      in if len \<ge> 8 then
           (let random = word_of_int len;
                modulus = nextPowerOfTwo len;
                idx = a + quo len 4 * 2 - 1
            in breakLoop 3 data a len modulus idx random 0)
         else data)"

function scanLess :: "('a \<Rightarrow> 'a \<Rightarrow> bool) \<Rightarrow> 'a list \<Rightarrow> int \<Rightarrow> int \<Rightarrow> int \<Rightarrow> int" where
  \<comment> \<open>\<^verbatim>\<open>for i <= j && data.Less(i, a) { i++ }\<close>\<close>
  "scanLess lt data a i j =
     (if i \<le> j \<and> Less lt data i a then scanLess lt data a (i + 1) j else i)"
  by pat_completeness auto
termination
  by (relation "measure (\<lambda>(lt, data, a, i, j). nat (j + 1 - i))") auto

declare scanLess.simps [simp del]

function scanNotLess :: "('a \<Rightarrow> 'a \<Rightarrow> bool) \<Rightarrow> 'a list \<Rightarrow> int \<Rightarrow> int \<Rightarrow> int \<Rightarrow> int" where
  \<comment> \<open>\<^verbatim>\<open>for i <= j && !data.Less(j, a) { j-- }\<close>\<close>
  "scanNotLess lt data a i j =
     (if i \<le> j \<and> \<not> Less lt data j a then scanNotLess lt data a i (j - 1) else j)"
  by pat_completeness auto
termination
  by (relation "measure (\<lambda>(lt, data, a, i, j). nat (j + 1 - i))") auto

declare scanNotLess.simps [simp del]

function scanNotGreater :: "('a \<Rightarrow> 'a \<Rightarrow> bool) \<Rightarrow> 'a list \<Rightarrow> int \<Rightarrow> int \<Rightarrow> int \<Rightarrow> int" where
  \<comment> \<open>\<^verbatim>\<open>for i <= j && !data.Less(a, i) { i++ }\<close>\<close>
  "scanNotGreater lt data a i j =
     (if i \<le> j \<and> \<not> Less lt data a i then scanNotGreater lt data a (i + 1) j else i)"
  by pat_completeness auto
termination
  by (relation "measure (\<lambda>(lt, data, a, i, j). nat (j + 1 - i))") auto

declare scanNotGreater.simps [simp del]

function scanGreater :: "('a \<Rightarrow> 'a \<Rightarrow> bool) \<Rightarrow> 'a list \<Rightarrow> int \<Rightarrow> int \<Rightarrow> int \<Rightarrow> int" where
  \<comment> \<open>\<^verbatim>\<open>for i <= j && data.Less(a, j) { j-- }\<close>\<close>
  "scanGreater lt data a i j =
     (if i \<le> j \<and> Less lt data a j then scanGreater lt data a i (j - 1) else j)"
  by pat_completeness auto
termination
  by (relation "measure (\<lambda>(lt, data, a, i, j). nat (j + 1 - i))") auto

declare scanGreater.simps [simp del]


function partitionLoop :: "('a \<Rightarrow> 'a \<Rightarrow> bool) \<Rightarrow> 'a list \<Rightarrow> int \<Rightarrow> int \<Rightarrow> int \<Rightarrow> 'a list \<times> int \<times> int" where
  "partitionLoop lt data a i j =
     (let i = scanLess lt data a i j;
          j = scanNotLess lt data a i j
      in if i > j then (data, i, j)
         else partitionLoop lt (Swap data i j) a (i + 1) (j - 1))"
  by pat_completeness auto
termination
proof -
  have up: "i \<le> scanLess lt data a i j" for lt :: "'a \<Rightarrow> 'a \<Rightarrow> bool" and data a i j
    by (induction lt data a i j rule: scanLess.induct) (subst scanLess.simps, auto)
  have down: "scanNotLess lt data a i j \<le> j" for lt :: "'a \<Rightarrow> 'a \<Rightarrow> bool" and data a i j
    by (induction lt data a i j rule: scanNotLess.induct) (subst scanNotLess.simps, auto)
  show ?thesis
  proof (relation "measure (\<lambda>(lt, data, a, i, j). nat (j + 1 - i))", goal_cases)
    case 1
    show ?case by simp
  next
    case (2 lt data a i j i' j')
    with up [of i lt data a j] down [of lt data a i' j] show ?case
      by simp
  qed
qed

declare partitionLoop.simps [simp del]

definition partition_func ::
  "('a \<Rightarrow> 'a \<Rightarrow> bool) \<Rightarrow> 'a list \<Rightarrow> int \<Rightarrow> int \<Rightarrow> int \<Rightarrow> 'a list \<times> int \<times> bool" where
  "partition_func lt data a b pivot =
     (let data = Swap data a pivot;
          i = a + 1; j = b - 1;
          i = scanLess lt data a i j;
          j = scanNotLess lt data a i j
      in if i > j then (Swap data j a, j, True)
         else (let data = Swap data i j;
                   (data, i, j) = partitionLoop lt data a (i + 1) (j - 1)
               in (Swap data j a, j, False)))"

function partitionEqualLoop :: "('a \<Rightarrow> 'a \<Rightarrow> bool) \<Rightarrow> 'a list \<Rightarrow> int \<Rightarrow> int \<Rightarrow> int \<Rightarrow> 'a list \<times> int \<times> int" where
  "partitionEqualLoop lt data a i j =
     (let i = scanNotGreater lt data a i j;
          j = scanGreater lt data a i j
      in if i > j then (data, i, j)
         else partitionEqualLoop lt (Swap data i j) a (i + 1) (j - 1))"
  by pat_completeness auto
termination
proof -
  have up: "i \<le> scanNotGreater lt data a i j" for lt :: "'a \<Rightarrow> 'a \<Rightarrow> bool" and data a i j
    by (induction lt data a i j rule: scanNotGreater.induct) (subst scanNotGreater.simps, auto)
  have down: "scanGreater lt data a i j \<le> j" for lt :: "'a \<Rightarrow> 'a \<Rightarrow> bool" and data a i j
    by (induction lt data a i j rule: scanGreater.induct) (subst scanGreater.simps, auto)
  show ?thesis
  proof (relation "measure (\<lambda>(lt, data, a, i, j). nat (j + 1 - i))", goal_cases)
    case 1
    show ?case by simp
  next
    case (2 lt data a i j i' j')
    with up [of i lt data a j] down [of lt data a i' j] show ?case
      by simp
  qed
qed

declare partitionEqualLoop.simps [simp del]

definition partitionEqual_func ::
  "('a \<Rightarrow> 'a \<Rightarrow> bool) \<Rightarrow> 'a list \<Rightarrow> int \<Rightarrow> int \<Rightarrow> int \<Rightarrow> 'a list \<times> int" where
  "partitionEqual_func lt data a b pivot =
     (let data = Swap data a pivot;
          (data, i, j) = partitionEqualLoop lt data a (a + 1) (b - 1)
      in (data, i))"


function pdqsort_func ::
  "('a \<Rightarrow> 'a \<Rightarrow> bool) \<Rightarrow> 'a list \<Rightarrow> int \<Rightarrow> int \<Rightarrow> int \<Rightarrow> bool \<Rightarrow> bool \<Rightarrow> 'a list" where
  "pdqsort_func lt data a b limit wasBalanced wasPartitioned =
     (let len = b - a
      in if len \<le> 12 then insertionSort_func lt data a b
         else if limit = 0 then heapSort_func lt data a b
         else
           (let (data, limit) = (if \<not> wasBalanced then (breakPatterns_func data a b, limit - 1)
                                 else (data, limit));
                (pivot, hint) = choosePivot_func lt data a b;
                (data, pivot, hint) =
                   (if hint = decreasingHint
                    then (reverseRange_func data a b, (b - 1) - (pivot - a), increasingHint)
                    else (data, pivot, hint));
                (data, sorted) =
                   (if wasBalanced \<and> wasPartitioned \<and> hint = increasingHint
                    then partialInsertionSort_func lt data a b
                    else (data, False))
            in if sorted then data
               else if a > 0 \<and> \<not> Less lt data (a - 1) pivot then
                 (let (data, mid) = partitionEqual_func lt data a b pivot
                  in pdqsort_func lt data mid b limit wasBalanced wasPartitioned)
               else
                 (let (data, mid, alreadyPartitioned) = partition_func lt data a b pivot;
                      leftLen = mid - a; rightLen = b - mid;
                      balanceThreshold = quo len 8
                  in if leftLen < rightLen
                     then pdqsort_func lt (pdqsort_func lt data a mid limit True True)
                            (mid + 1) b limit (leftLen \<ge> balanceThreshold) alreadyPartitioned
                     else pdqsort_func lt (pdqsort_func lt data (mid + 1) b limit True True)
                            a mid limit (rightLen \<ge> balanceThreshold) alreadyPartitioned)))"
  by pat_completeness auto
termination
proof -
  have up: "i \<le> scanLess lt data a i j" for lt :: "'a \<Rightarrow> 'a \<Rightarrow> bool" and data a i j
    by (induction lt data a i j rule: scanLess.induct) (subst scanLess.simps, auto)
  have down: "scanNotLess lt data a i j \<le> j \<and> min j (i - 1) \<le> scanNotLess lt data a i j"
    for lt :: "'a \<Rightarrow> 'a \<Rightarrow> bool" and data a i j
    by (induction lt data a i j rule: scanNotLess.induct) (subst (1 2) scanNotLess.simps, auto)
  have loop: "snd (snd (partitionLoop lt data a i j)) \<le> j
                \<and> min j (i - 1) \<le> snd (snd (partitionLoop lt data a i j))"
    for lt :: "'a \<Rightarrow> 'a \<Rightarrow> bool" and data a i j
  proof (induction lt data a i j rule: partitionLoop.induct)
    case (1 lt data a i j)
    let ?i = "scanLess lt data a i j"
    let ?j = "scanNotLess lt data a ?i j"
    show ?case
    proof (cases "?i > ?j")
      case True
      with up [of i lt data a j] down [of lt data a ?i j] show ?thesis
        by (subst (1 2) partitionLoop.simps) (auto simp: Let_def)
    next
      case False
      with "1.IH" [OF refl refl] up [of i lt data a j] down [of lt data a ?i j] show ?thesis
        by (subst (1 2) partitionLoop.simps) (auto simp: Let_def)
    qed
  qed
  have part: "a \<le> fst (snd (partition_func lt data a b pivot))
                \<and> fst (snd (partition_func lt data a b pivot)) < b"
    if "a < b" for lt :: "'a \<Rightarrow> 'a \<Rightarrow> bool" and data a b pivot
  proof -
    let ?d = "Swap data a pivot"
    let ?i = "scanLess lt ?d a (a + 1) (b - 1)"
    let ?j = "scanNotLess lt ?d a ?i (b - 1)"
    from up [of "a + 1" lt ?d a "b - 1"] down [of lt ?d a ?i "b - 1"]
      loop [of lt "Swap ?d ?i ?j" a "?i + 1" "?j - 1"] that
    show ?thesis
      by (auto simp: partition_func_def Let_def split: prod.splits)
  qed
  have upE: "i \<le> scanNotGreater lt data a i j" for lt :: "'a \<Rightarrow> 'a \<Rightarrow> bool" and data a i j
    by (induction lt data a i j rule: scanNotGreater.induct) (subst scanNotGreater.simps, auto)
  have loopE: "i \<le> fst (snd (partitionEqualLoop lt data a i j))"
    for lt :: "'a \<Rightarrow> 'a \<Rightarrow> bool" and data a i j
  proof (induction lt data a i j rule: partitionEqualLoop.induct)
    case (1 lt data a i j)
    let ?i = "scanNotGreater lt data a i j"
    let ?j = "scanGreater lt data a ?i j"
    show ?case
    proof (cases "?i > ?j")
      case True
      with upE [of i lt data a j] show ?thesis
        by (subst partitionEqualLoop.simps) (auto simp: Let_def)
    next
      case False
      with "1.IH" [OF refl refl] upE [of i lt data a j] show ?thesis
        by (subst partitionEqualLoop.simps) (auto simp: Let_def)
    qed
  qed
  have partE: "a < snd (partitionEqual_func lt data a b pivot)"
    for lt :: "'a \<Rightarrow> 'a \<Rightarrow> bool" and data a b pivot
    using loopE [of "a + 1" lt "Swap data a pivot" a "b - 1"]
    by (auto simp: partitionEqual_func_def Let_def split: prod.splits)
  have partE': "a < mid" if "(d, mid) = partitionEqual_func lt data a b pivot"
    for lt :: "'a \<Rightarrow> 'a \<Rightarrow> bool" and data a b pivot d mid
    using partE [of a lt data b pivot] that [symmetric] by simp
  have part': "a \<le> mid \<and> mid < b" if "(d, mid, ap) = partition_func lt data a b pivot" "\<not> b - a \<le> 12"
    for lt :: "'a \<Rightarrow> 'a \<Rightarrow> bool" and data a b pivot d mid ap
    using part [of a b lt data pivot] that(1) [symmetric] that(2) by simp
  show ?thesis
    by (relation "measure (\<lambda>(lt, data, a, b, limit, wasBalanced, wasPartitioned). nat (b - a))")
       (auto dest: partE' part')
qed

declare pdqsort_func.simps [simp del]

definition sortSlice_go :: "('a \<Rightarrow> 'a \<Rightarrow> bool) \<Rightarrow> 'a list \<Rightarrow> 'a list" where
  "sortSlice_go lt x =
     (let len = int (length x);
          limit = int (bitsLen len)
      in pdqsort_func lt x 0 len limit True True)"

section \<open>Properties of the availability predicate\<close>

lemma userEventsFree_iff:
  "userEventsFree start end' evs = (\<forall>b \<in> set evs. isFree start end' b)"
  by (induction evs) (auto simp: isFree_def Before_def After_def)

lemma isSlotAvailable_iff:
  "isSlotAvailable start end' es = (\<forall>(u, evs) \<in> set es. \<forall>b \<in> set evs. isFree start end' b)"
proof (induction es)
  case Nil
  show ?case by simp
next
  case (Cons e es)
  obtain u evs where e: "e = (u, evs)" by (cases e)
  show ?case unfolding e
    using Cons.IH by (simp add: userEventsFree_iff)
qed

section \<open>Evaluating the arithmetic\<close>

lemma bitlen_numeral_step: "bitlen (numeral n) = bitlen (numeral n div 2) + 1"
  by (subst compute_bitlen) simp

lemma bitlen_1: "bitlen 1 = 1"
  by (subst compute_bitlen) simp

lemmas float_eval = round64_def ilog2_def pow2_def rne_def Let_def bitlen_numeral_step bitlen_1
  fadd_def fsub_def fmul_def fdiv_def float64_of_int_def

section \<open>Properties of the rounding\<close>

lemma pow2_powi: "pow2 e = 2 powi e"
  by (simp add: pow2_def power_int_def field_simps)

lemma pow2_pos: "0 < pow2 e"
  by (simp add: pow2_powi)

lemma pow2_add: "pow2 (a + b) = pow2 a * pow2 b"
  by (simp add: pow2_powi power_int_add)

lemma pow2_mono: "a \<le> b \<Longrightarrow> pow2 a \<le> pow2 b"
  by (simp add: pow2_powi power_int_increasing)

lemma pow2_strict_mono: "a < b \<Longrightarrow> pow2 a < pow2 b"
  by (simp add: pow2_powi power_int_strict_increasing)

lemma pow2_less_cancel: "pow2 a < pow2 b \<Longrightarrow> a < b"
  using pow2_mono [of b a] by (cases "a < b") auto

lemma pow2_nat: "0 \<le> e \<Longrightarrow> pow2 e = of_int (2 ^ nat e)"
  by (simp add: pow2_def)

lemma pow2_0: "pow2 0 = 1"
  by (simp add: pow2_def)

lemma ilog2_bounds:
  assumes "0 < x"
  shows "pow2 (ilog2 x) \<le> x \<and> x < pow2 (ilog2 x + 1)"
proof (cases "1 \<le> x")
  case True
  let ?n = "\<lfloor>x\<rfloor>"
  have n: "0 < ?n" using True by simp
  from bitlen_bounds [OF n]
  have lo: "2 ^ nat (bitlen ?n - 1) \<le> ?n" and hi: "?n < 2 ^ nat (bitlen ?n)"
    by auto
  have b1: "1 \<le> bitlen ?n"
    using n bitlen_eq_zero_iff [of ?n] bitlen_nonneg [of ?n] by linarith
  have e: "ilog2 x = bitlen ?n - 1"
    using True by (simp add: ilog2_def)
  have "pow2 (bitlen ?n - 1) = of_int (2 ^ nat (bitlen ?n - 1))"
    using b1 by (intro pow2_nat) simp
  also have "\<dots> \<le> of_int ?n"
    using lo by (simp only: of_int_le_iff)
  also have "\<dots> \<le> x" by simp
  finally have low: "pow2 (ilog2 x) \<le> x"
    by (simp add: e)
  have "?n + 1 \<le> 2 ^ nat (bitlen ?n)"
    using hi by simp
  then have "of_int (?n + 1) \<le> (of_int (2 ^ nat (bitlen ?n)) :: real)"
    by (simp only: of_int_le_iff)
  moreover have "x < of_int (?n + 1)"
    using floor_correct [of x] by simp
  ultimately have "x < of_int (2 ^ nat (bitlen ?n))"
    by linarith
  moreover have "pow2 (bitlen ?n) = of_int (2 ^ nat (bitlen ?n))"
    using b1 by (intro pow2_nat) simp
  ultimately have "x < pow2 (ilog2 x + 1)"
    by (simp only: e) simp
  with low show ?thesis by blast
next
  case False
  let ?c = "\<lceil>1 / x\<rceil>"
  let ?b = "bitlen (?c - 1)"
  have y: "1 < 1 / x" using False assms by simp
  then have c2: "2 \<le> ?c"
    by (smt (verit) ceiling_le_iff of_int_1)
  then have c1: "0 < ?c - 1" by simp
  from bitlen_bounds [OF c1]
  have lo: "2 ^ nat (?b - 1) \<le> ?c - 1" and hi: "?c - 1 < 2 ^ nat ?b"
    by auto
  have b1: "1 \<le> ?b"
    using c1 bitlen_eq_zero_iff [of "?c - 1"] bitlen_nonneg [of "?c - 1"] by linarith
  have e: "ilog2 x = - ?b"
    using False by (simp add: ilog2_def)
  have pb: "pow2 (- ?b) = 1 / of_int (2 ^ nat ?b)"
    using b1 by (simp add: pow2_def)
  have "?c \<le> 2 ^ nat ?b"
    using hi by simp
  then have "of_int ?c \<le> (of_int (2 ^ nat ?b) :: real)"
    by (simp only: of_int_le_iff)
  moreover have "1 / x \<le> of_int ?c"
    by (rule le_of_int_ceiling)
  ultimately have "1 / x \<le> of_int (2 ^ nat ?b)"
    by linarith
  then have low: "pow2 (ilog2 x) \<le> x"
    using assms by (simp add: e pb field_simps)
  have pb1: "pow2 (ilog2 x + 1) = 1 / of_int (2 ^ nat (?b - 1))"
  proof (cases "?b = 1")
    case True
    then show ?thesis by (simp add: e pow2_0)
  next
    case False
    with b1 have "- ?b + 1 < 0" by simp
    then show ?thesis
      by (simp add: e pow2_def)
  qed
  have "(of_int (2 ^ nat (?b - 1)) :: real) \<le> of_int (?c - 1)"
    using lo by (simp only: of_int_le_iff)
  moreover have "of_int (?c - 1) < 1 / x"
    using ceiling_correct [of "1 / x"] by simp
  ultimately have "of_int (2 ^ nat (?b - 1)) < 1 / x"
    by linarith
  then have "x < 1 / of_int (2 ^ nat (?b - 1))"
    using assms by (simp add: field_simps)
  then have "x < pow2 (ilog2 x + 1)"
    by (simp only: pb1)
  with low show ?thesis by blast
qed

lemma rne_of_int: "rne (of_int n) = n"
  by (simp add: rne_def)

lemma rne_bounds: "\<lfloor>x\<rfloor> \<le> rne x \<and> rne x \<le> \<lfloor>x\<rfloor> + 1"
  by (simp add: rne_def Let_def)

lemma rne_le_int: "x \<le> of_int n \<Longrightarrow> rne x \<le> n"
proof -
  assume a: "x \<le> of_int n"
  show ?thesis
  proof (cases "x = of_int n")
    case True
    then show ?thesis by (simp add: rne_of_int)
  next
    case False
    with a have "x < of_int n" by simp
    then have "\<lfloor>x\<rfloor> < n" by (simp add: floor_less_iff)
    with rne_bounds [of x] show ?thesis by linarith
  qed
qed

lemma rne_ge_int: "of_int n \<le> x \<Longrightarrow> n \<le> rne x"
proof -
  assume "of_int n \<le> x"
  then have "n \<le> \<lfloor>x\<rfloor>" by (simp add: le_floor_iff)
  with rne_bounds [of x] show ?thesis by linarith
qed

lemma rne_minus: "rne (- x) = - rne x"
proof (cases "x = of_int \<lfloor>x\<rfloor>")
  case True
  then obtain n where "x = of_int n" ..
  then show ?thesis
    by (simp add: rne_of_int flip: of_int_minus)
next
  case False
  then have fl: "\<lfloor>- x\<rfloor> = - \<lfloor>x\<rfloor> - 1"
    by (smt (verit) ceiling_altdef ceiling_def)
  have frac: "0 < x - of_int \<lfloor>x\<rfloor>" "x - of_int \<lfloor>x\<rfloor> < 1"
    using False by (smt (verit) of_int_floor_le, linarith)
  show ?thesis
    using frac by (auto simp: rne_def Let_def fl)
qed

lemma round64_0: "round64 0 = 0"
  by (simp add: round64_def)

lemma round64_on_grid:
  assumes "y = of_int k * pow2 (max (ilog2 \<bar>y\<bar> - 52) (- 1074))"
  shows "round64 y = y"
proof (cases "y = 0")
  case True
  then show ?thesis by (simp add: round64_0)
next
  case False
  let ?q = "max (ilog2 \<bar>y\<bar> - 52) (- 1074)"
  have "y / pow2 ?q = of_int k"
    using assms pow2_pos [of ?q] by (simp add: field_simps)
  then have "of_int (rne (y / pow2 ?q)) * pow2 ?q = y"
    using assms by (simp add: rne_of_int)
  with False show ?thesis
    by (simp add: round64_def Let_def)
qed

lemma pow2_53: "pow2 53 = 9007199254740992"
  by (simp add: pow2_def)

lemma pow2_1: "pow2 1 = 2"
  by (simp add: pow2_def)

lemma pow2_le_cancel: "pow2 a \<le> pow2 b \<Longrightarrow> a \<le> b"
  using pow2_strict_mono [of b a] by (cases "a \<le> b") auto

lemma round64_idem: "round64 (round64 x) = round64 x"
proof (cases "x = 0")
  case True
  then show ?thesis by (simp add: round64_0)
next
  case False
  define e where "e = ilog2 \<bar>x\<bar>"
  define q where "q = max (e - 52) (- 1074)"
  define r where "r = rne (x / pow2 q)"
  define y where "y = of_int r * pow2 q"
  have y: "round64 x = y"
    using False by (simp add: round64_def Let_def y_def r_def q_def e_def)
  have q_ge: "e - 52 \<le> q" "- 1074 \<le> q"
    by (simp_all add: q_def)
  have "\<bar>x\<bar> < pow2 (e + 1)"
    using ilog2_bounds [of "\<bar>x\<bar>"] False by (simp add: e_def)
  also have "pow2 (e + 1) \<le> pow2 (q + 53)"
    using q_ge by (intro pow2_mono) simp
  also have "pow2 (q + 53) = pow2 q * 9007199254740992"
    by (simp only: pow2_add pow2_53)
  finally have "\<bar>x / pow2 q\<bar> < 9007199254740992"
    using pow2_pos [of q] by (simp add: field_simps abs_if split: if_splits)
  then have "x / pow2 q \<le> 9007199254740992" "- 9007199254740992 \<le> x / pow2 q"
    by linarith+
  then have m: "x / pow2 q \<le> of_int 9007199254740992" "of_int (- 9007199254740992) \<le> x / pow2 q"
    by simp_all
  have r: "r \<le> 9007199254740992" "- 9007199254740992 \<le> r"
    unfolding r_def using rne_le_int [OF m(1)] rne_ge_int [OF m(2)] by simp_all
  show ?thesis
  proof (cases "r = 0")
    case True
    then show ?thesis by (simp add: y y_def round64_0)
  next
    case False
    define e' where "e' = ilog2 \<bar>y\<bar>"
    define q' where "q' = max (e' - 52) (- 1074)"
    have ay: "\<bar>y\<bar> = of_int \<bar>r\<bar> * pow2 q"
      using pow2_pos [of q] by (simp add: y_def abs_mult)
    have ypos: "0 < \<bar>y\<bar>"
      using False pow2_pos [of q] by (simp add: y_def)
    from ilog2_bounds [OF ypos] have e': "pow2 e' \<le> \<bar>y\<bar>" "\<bar>y\<bar> < pow2 (e' + 1)"
      by (simp_all add: e'_def)
    have "\<exists>k. y = of_int k * pow2 q'"
    proof (cases "\<bar>r\<bar> = 9007199254740992")
      case True
      have "\<bar>y\<bar> = pow2 (q + 53)"
        by (simp add: ay True pow2_add pow2_53)
      with e' have "pow2 e' \<le> pow2 (q + 53)" "pow2 (q + 53) < pow2 (e' + 1)"
        by simp_all
      then have "e' \<le> q + 53" "q + 53 < e' + 1"
        by (auto dest: pow2_le_cancel pow2_less_cancel)
      then have "q' = q + 1"
        using q_ge by (simp add: q'_def)
      then have "pow2 q' = pow2 q * 2"
        by (simp only: pow2_add pow2_1)
      moreover from True have "r = 9007199254740992 \<or> r = - 9007199254740992"
        by (auto simp: abs_if split: if_splits)
      then have "r = 2 * (r div 2)"
        by auto
      then have "(of_int r :: real) = 2 * of_int (r div 2)"
        by (metis of_int_mult of_int_numeral)
      ultimately have "y = of_int (r div 2) * pow2 q'"
        by (simp add: y_def)
      then show ?thesis ..
    next
      case False
      with r have "\<bar>r\<bar> < 9007199254740992" by simp
      then have "(of_int \<bar>r\<bar> :: real) < 9007199254740992"
        by (metis of_int_less_iff of_int_numeral)
      then have "\<bar>y\<bar> < pow2 q * 9007199254740992"
        using pow2_pos [of q] by (simp add: ay)
      also have "\<dots> = pow2 (q + 53)"
        by (simp only: pow2_add pow2_53)
      finally have "pow2 e' < pow2 (q + 53)"
        using e'(1) by simp
      then have "e' < q + 53"
        by (rule pow2_less_cancel)
      then have le: "q' \<le> q"
        using q_ge by (simp add: q'_def)
      then have "pow2 q = pow2 q' * of_int (2 ^ nat (q - q'))"
        using pow2_add [of q' "q - q'"] pow2_nat [of "q - q'"] by simp
      then have "y = of_int (r * 2 ^ nat (q - q')) * pow2 q'"
        by (simp add: y_def)
      then show ?thesis ..
    qed
    then obtain k where "y = of_int k * pow2 (max (ilog2 \<bar>y\<bar> - 52) (- 1074))"
      by (auto simp: q'_def e'_def)
    then have "round64 y = y"
      by (rule round64_on_grid)
    then show ?thesis
      by (simp add: y)
  qed
qed

text \<open>
  Claim C1.  A candidate from \<open>start\<close> to \<open>end'\<close> is available exactly when, for every
  participant and every busy interval \<open>b\<close> of that participant, the candidate ends strictly
  before \<open>b\<close> starts or starts strictly after \<open>b\<close> ends.  For one busy interval this is the
  test \<open>isFree\<close> itself.  A candidate that touches a busy interval, ending at the instant
  where \<open>b\<close> starts or starting at the instant where \<open>b\<close> ends, is not available;
  here the candidate and \<open>b\<close> are intervals, neither ends before it starts.
\<close>

theorem isSlotAvailable_strict_boundaries:
  "(isSlotAvailable start end' events \<longleftrightarrow>
      (\<forall>(user, userEvents) \<in> set events. \<forall>b \<in> set userEvents.
          instant end' < instant (StartTime b) \<or> instant start > instant (EndTime b)))
   \<and> (isSlotAvailable start end' [(user, [b])] \<longleftrightarrow>
          instant end' < instant (StartTime b) \<or> instant start > instant (EndTime b))
   \<and> ((user, userEvents) \<in> set events \<and> b \<in> set userEvents
          \<and> instant start \<le> instant end' \<and> instant (StartTime b) \<le> instant (EndTime b)
          \<and> (instant end' = instant (StartTime b) \<or> instant start = instant (EndTime b))
        \<longrightarrow> \<not> isSlotAvailable start end' events)"
proof (intro conjI impI)
  show all: "isSlotAvailable start end' events \<longleftrightarrow>
      (\<forall>(user, userEvents) \<in> set events. \<forall>b \<in> set userEvents.
          instant end' < instant (StartTime b) \<or> instant start > instant (EndTime b))"
    by (simp add: isSlotAvailable_iff isFree_def)
  show "isSlotAvailable start end' [(user, [b])] \<longleftrightarrow>
          instant end' < instant (StartTime b) \<or> instant start > instant (EndTime b)"
    by (simp add: Before_def After_def)
  assume touch: "(user, userEvents) \<in> set events \<and> b \<in> set userEvents
          \<and> instant start \<le> instant end' \<and> instant (StartTime b) \<le> instant (EndTime b)
          \<and> (instant end' = instant (StartTime b) \<or> instant start = instant (EndTime b))"
  then have "\<not> isFree start end' b"
    by (auto simp: isFree_def)
  with touch show "\<not> isSlotAvailable start end' events"
    unfolding isSlotAvailable_iff by blast
qed

text \<open>
  The boundary scenario of the specification: a busy interval from 10:00 to 11:00 and a
  candidate from 11:00 to 12:00.
\<close>

theorem isSlotAvailable_strict_boundaries_witness:
  "\<not> isSlotAvailable (on_2024_09_01 11 0) (on_2024_09_01 12 0)
       [(''user1'', [busy (on_2024_09_01 10 0) (on_2024_09_01 11 0)])]
   \<and> isSlotAvailable (on_2024_09_01 11 15) (on_2024_09_01 12 15)
       [(''user1'', [busy (on_2024_09_01 10 0) (on_2024_09_01 11 0)])]"
  using isSlotAvailable_strict_boundaries
    [of "on_2024_09_01 11 0" "on_2024_09_01 12 0"
        "[(''user1'', [busy (on_2024_09_01 10 0) (on_2024_09_01 11 0)])]"
        "''user1''" "busy (on_2024_09_01 10 0) (on_2024_09_01 11 0)"
        "[busy (on_2024_09_01 10 0) (on_2024_09_01 11 0)]"]
    isSlotAvailable_strict_boundaries
    [of "on_2024_09_01 11 15" "on_2024_09_01 12 15"
        "[(''user1'', [busy (on_2024_09_01 10 0) (on_2024_09_01 11 0)])]"
        "''user1''" "busy (on_2024_09_01 10 0) (on_2024_09_01 11 0)"
        "[busy (on_2024_09_01 10 0) (on_2024_09_01 11 0)]"]
  by (simp add: on_2024_09_01_def busy_def)

section \<open>Properties of the enumeration loop\<close>

lemma Add_Add: "Add (Add t a) b = Add t (a + b)"
  by (simp add: Add_def)

lemma Add_0: "Add t 0 = t"
  by (simp add: Add_def)

lemma instant_Add: "instant (Add t d) = instant t + d"
  by (simp add: Add_def)

lemma step15_pos: "0 < step15"
  by (simp add: step15_def Minute_def)

lemma findLoop_sound:
  "s \<in> set (findLoop req av k c) \<Longrightarrow>
     \<exists>j. Start s = Add c (int j * step15)
       \<and> End s = Add (Start s) (minutesDuration (DurationMinutes req))
       \<and> Score s = 0
       \<and> Before (Start s) (range_End (TimeRange req))
       \<and> Before (End s) (range_End (TimeRange req))
       \<and> isSlotAvailable (Start s) (End s) (av (k + j))"
proof (induction req av k c rule: findLoop.induct)
  case (1 req av k current)
  show ?case
  proof (cases "Before current (range_End (TimeRange req))")
    case False
    with "1.prems" show ?thesis by (simp add: findLoop.simps)
  next
    case True
    let ?slotEnd = "Add current (minutesDuration (DurationMinutes req))"
    from "1.prems" True have
      "(Before ?slotEnd (range_End (TimeRange req)) \<and> isSlotAvailable current ?slotEnd (av k)
          \<and> s = \<lparr>Start = current, End = ?slotEnd, Score = 0\<rparr>)
       \<or> s \<in> set (findLoop req av (Suc k) (Add current step15))"
      by (subst (asm) findLoop.simps) (auto simp: Let_def split: if_splits)
    then show ?thesis
    proof
      assume "Before ?slotEnd (range_End (TimeRange req)) \<and> isSlotAvailable current ?slotEnd (av k)
          \<and> s = \<lparr>Start = current, End = ?slotEnd, Score = 0\<rparr>"
      with True show ?thesis
        by (intro exI [of _ 0]) (simp add: Add_0)
    next
      assume "s \<in> set (findLoop req av (Suc k) (Add current step15))"
      from "1.IH" [OF True refl this] obtain j where
        j: "Start s = Add (Add current step15) (int j * step15)"
           "End s = Add (Start s) (minutesDuration (DurationMinutes req))"
           "Score s = 0"
           "Before (Start s) (range_End (TimeRange req))"
           "Before (End s) (range_End (TimeRange req))"
           "isSlotAvailable (Start s) (End s) (av (Suc k + j))"
        by blast
      show ?thesis
        using j by (intro exI [of _ "Suc j"]) (simp add: Add_Add algebra_simps)
    qed
  qed
qed

lemma findLoop_complete:
  "Before (Add c (int j * step15)) (range_End (TimeRange req)) \<Longrightarrow>
   Before (Add (Add c (int j * step15)) (minutesDuration (DurationMinutes req))) (range_End (TimeRange req)) \<Longrightarrow>
   isSlotAvailable (Add c (int j * step15))
      (Add (Add c (int j * step15)) (minutesDuration (DurationMinutes req))) (av (k + j)) \<Longrightarrow>
   \<lparr>Start = Add c (int j * step15),
     End = Add (Add c (int j * step15)) (minutesDuration (DurationMinutes req)),
     Score = 0\<rparr> \<in> set (findLoop req av k c)"
proof (induction j arbitrary: k c)
  case 0
  then show ?case
    by (subst findLoop.simps) (simp add: Add_0 Let_def)
next
  case (Suc j)
  have shift: "Add (Add c step15) (int j * step15) = Add c (int (Suc j) * step15)"
    by (simp add: Add_Add algebra_simps)
  have before: "Before c (range_End (TimeRange req))"
    using Suc.prems(1) step15_pos
    by (simp add: Before_def instant_Add) (smt (verit) mult_nonneg_nonneg of_nat_0_le_iff)
  have "\<lparr>Start = Add (Add c step15) (int j * step15),
          End = Add (Add (Add c step15) (int j * step15)) (minutesDuration (DurationMinutes req)),
          Score = 0\<rparr> \<in> set (findLoop req av (Suc k) (Add c step15))"
    using Suc.prems by (intro Suc.IH) (simp_all add: shift)
  then show ?case
    using before by (subst findLoop.simps) (simp add: shift Let_def)
qed

lemma findLoop_sorted:
  "sorted_wrt (\<lambda>a b. instant (Start a) < instant (Start b)) (findLoop req av k c)"
proof (induction req av k c rule: findLoop.induct)
  case (1 req av k current)
  show ?case
  proof (cases "Before current (range_End (TimeRange req))")
    case False
    then show ?thesis by (simp add: findLoop.simps)
  next
    case True
    have later: "instant current < instant (Start s)"
      if "s \<in> set (findLoop req av (Suc k) (Add current step15))" for s
    proof -
      from findLoop_sound [OF that] obtain j where "Start s = Add (Add current step15) (int j * step15)"
        by blast
      then have "instant (Start s) = instant current + step15 + int j * step15"
        by (simp add: instant_Add)
      with step15_pos show ?thesis
        by (smt (verit) mult_nonneg_nonneg of_nat_0_le_iff)
    qed
    show ?thesis
      using "1.IH" [OF True refl] True later
      by (subst findLoop.simps) (auto simp: Let_def)
  qed
qed

section \<open>Properties of the insertion sort\<close>

lemma mset_sink: "mset (sink lt x ys) = add_mset x (mset ys)"
  by (induction ys) auto

lemma mset_foldl_sink: "mset (foldl (\<lambda>front x. sink lt x front) acc xs) = mset xs + mset acc"
  by (induction xs arbitrary: acc) (auto simp: mset_sink)

lemma mset_insertionSort: "mset (insertionSort lt xs) = mset xs"
  by (simp add: insertionSort_def mset_foldl_sink)

lemma set_sink: "set (sink lt x ys) = insert x (set ys)"
  by (induction ys) auto

lemma sorted_sink:
  "sorted_wrt (\<lambda>a b. Score a \<le> Score b) ys \<Longrightarrow> sorted_wrt (\<lambda>a b. Score a \<le> Score b) (sink byScore x ys)"
  by (induction ys) (auto simp: byScore_def set_sink)

lemma sorted_foldl_sink:
  "sorted_wrt (\<lambda>a b. Score a \<le> Score b) acc \<Longrightarrow>
   sorted_wrt (\<lambda>a b. Score a \<le> Score b) (foldl (\<lambda>front x. sink byScore x front) acc xs)"
  by (induction xs arbitrary: acc) (auto simp: sorted_sink)

lemma sorted_insertionSort: "sorted_wrt (\<lambda>a b. \<not> byScore b a) (insertionSort byScore xs)"
proof -
  have "sorted_wrt (\<lambda>a b. Score a \<le> Score b) (foldl (\<lambda>front x. sink byScore x front) [] xs)"
    by (rule sorted_foldl_sink) simp
  then have "sorted_wrt (\<lambda>a b. Score b \<le> Score a) (insertionSort byScore xs)"
    by (simp add: insertionSort_def sorted_wrt_rev)
  then show ?thesis
    by (simp add: byScore_def not_less)
qed

lemma insertionSort_sorts: "sortSlice_sorts insertionSort"
  by (simp add: sortSlice_sorts_def mset_insertionSort sorted_insertionSort)

lemma filter_sink:
  "filter (\<lambda>t. Score t = v) (sink byScore x ys)
     = (if Score x = v then x # filter (\<lambda>t. Score t = v) ys else filter (\<lambda>t. Score t = v) ys)"
  by (induction ys) (auto simp: byScore_def)

lemma filter_foldl_sink:
  "filter (\<lambda>t. Score t = v) (foldl (\<lambda>front x. sink byScore x front) acc xs)
     = rev (filter (\<lambda>t. Score t = v) xs) @ filter (\<lambda>t. Score t = v) acc"
  by (induction xs arbitrary: acc) (auto simp: filter_sink)

lemma insertionSort_stable: "sortSlice_stable insertionSort"
  by (simp add: sortSlice_stable_def insertionSort_def filter_foldl_sink rev_filter [symmetric])

text \<open>
  The sort of the library, evaluated: the loop of the partial insertion sort is unfolded at a
  numeral, and \<open>go_sort_eval\<close> collects the equations of the functions of the sort.
\<close>

lemma partialLoop_numeral:
  "partialLoop lt (numeral k) data a b i =
     (let i = skipOrdered lt data i b
      in if i = b then (data, True)
         else if b - a < 50 then (data, False)
         else (let data = Swap data i (i - 1);
                   data = (if i - a \<ge> 2 then shiftLeft lt data (i - 1) else data);
                   data = (if b - i \<ge> 2 then shiftRight lt data (i + 1) b else data)
               in partialLoop lt (pred_numeral k) data a b i))"
  by (simp add: numeral_eq_Suc)

lemmas go_sort_eval = sortSlice_go_def pdqsort_func.simps insertionSort_func_def insertionOuter.simps
  insertionInner.simps choosePivot_func_def median_func_def medianAdjacent_func_def order2_func_def
  partialInsertionSort_func_def skipOrdered.simps partition_func_def partitionLoop.simps
  scanLess.simps scanNotLess.simps partitionEqual_func_def partitionEqualLoop.simps
  scanNotGreater.simps scanGreater.simps reverseRange_func_def reverseLoop.simps
  partialLoop_numeral Less_def Swap_def item_def quo_def bitsLen_def compute_floorlog Let_def

text \<open>
  On a slice of at most 12 elements the sort of the library is its insertion sort, which is
  \<open>insertionSort\<close>.
\<close>

lemma item_append_left: "i < length p \<Longrightarrow> item (p @ q) (int i) = p ! i"
  by (simp add: item_def nth_append)

lemma item_append_right: "item (p @ x # q) (int (length p)) = x"
  by (simp add: item_def)

lemma nat_int_Suc: "nat (int n + 1) = Suc n" "nat (1 + int n) = Suc n"
  by simp_all

lemma Swap_adjacent:
  "Swap (p @ y # x # rest) (int (length p) + 1) (int (length p)) = p @ x # y # rest"
  by (simp add: Swap_def item_def nat_int_Suc list_update_append nth_append)

lemma insertionInner_sink:
  "insertionInner lt (p @ x # rest) 0 (int (length p)) = rev (sink lt x (rev p)) @ rest"
proof (induction p arbitrary: rest rule: rev_induct)
  case Nil
  show ?case
    by (subst insertionInner.simps) simp
next
  case (snoc y p)
  have x: "item ((p @ [y]) @ x # rest) (int (length (p @ [y]))) = x"
    by (rule item_append_right)
  have y: "item ((p @ [y]) @ x # rest) (int (length (p @ [y])) - 1) = y"
    using item_append_right [of p y "x # rest"] by simp
  show ?case
  proof (cases "lt x y")
    case False
    with x y show ?thesis
      by (subst insertionInner.simps) (simp add: Less_def)
  next
    case True
    have sw: "Swap ((p @ [y]) @ x # rest) (1 + int (length p)) (int (length p))
                = p @ x # y # rest"
      using Swap_adjacent [of p y x rest] by (simp add: add.commute)
    have "insertionInner lt ((p @ [y]) @ x # rest) 0 (int (length (p @ [y])))
            = insertionInner lt (p @ x # y # rest) 0 (int (length p))"
      using True x y
      by (subst insertionInner.simps) (simp add: Less_def sw del: append_assoc append.simps)
    also have "\<dots> = rev (sink lt x (rev p)) @ y # rest"
      by (rule snoc.IH)
    finally show ?thesis
      using True by simp
  qed
qed

lemma insertionOuter_foldl:
  "insertionOuter lt (p @ rest) 0 (int (length (p @ rest))) (int (length p))
     = rev (foldl (\<lambda>front x. sink lt x front) (rev p) rest)"
proof (induction rest arbitrary: p)
  case Nil
  show ?case
    by (subst insertionOuter.simps) simp
next
  case (Cons x rest)
  have len: "length (sink lt x (rev p)) = Suc (length p)"
    by (metis length_rev mset_sink size_add_mset size_mset)
  have "insertionOuter lt (p @ x # rest) 0 (int (length (p @ x # rest))) (int (length p))
          = insertionOuter lt (rev (sink lt x (rev p)) @ rest) 0 (int (length (p @ x # rest)))
              (int (length p) + 1)"
    by (subst insertionOuter.simps) (simp add: insertionInner_sink)
  also have "\<dots> = rev (foldl (\<lambda>front x. sink lt x front) (rev (rev (sink lt x (rev p)))) rest)"
    using Cons.IH [of "rev (sink lt x (rev p))"] by (simp add: len add.commute)
  finally show ?case
    by simp
qed

lemma insertionSort_func_whole:
  "insertionSort_func lt data 0 (int (length data)) = insertionSort lt data"
proof (cases data)
  case Nil
  then show ?thesis
    by (simp add: insertionSort_func_def insertionSort_def insertionOuter.simps)
next
  case (Cons x rest)
  with insertionOuter_foldl [of lt "[x]" rest] show ?thesis
    by (simp add: insertionSort_func_def insertionSort_def)
qed

lemma sortSlice_go_short:
  "length x \<le> 12 \<Longrightarrow> sortSlice_go lt x = insertionSort lt x"
  by (simp add: sortSlice_go_def pdqsort_func.simps Let_def insertionSort_func_whole)
section \<open>Properties of the selection\<close>

lemma isSlotAvailable_cong_set:
  "set es = set es' \<Longrightarrow> isSlotAvailable start end' es = isSlotAvailable start end' es'"
  by (simp add: isSlotAvailable_iff)

lemma wrap64_id: "- (2 ^ 63) \<le> i \<Longrightarrow> i < 2 ^ 63 \<Longrightarrow> wrap64 i = i"
  unfolding wrap64_def by (rule signed_take_bit_int_eq_self) simp_all

lemma length_scoreSlots: "length (scoreSlots slots events) = length slots"
  by (simp add: scoreSlots_def)

lemma scoreSlots_nth:
  "i < length slots \<Longrightarrow>
   scoreSlots slots events ! i
     = (slots ! i)\<lparr>Score := calculateSlotScore (slots ! i) (events (GapSite i)) (events (BufferSite i))\<rparr>"
  by (simp add: scoreSlots_def nth_enumerate_eq)

lemma scoreSlots_member:
  assumes "s \<in> set (scoreSlots slots events)"
  shows "\<exists>i < length slots. s = (slots ! i)\<lparr>Score :=
            calculateSlotScore (slots ! i) (events (GapSite i)) (events (BufferSite i))\<rparr>"
proof -
  from assms obtain i where "i < length (scoreSlots slots events)" "s = scoreSlots slots events ! i"
    by (auto simp: in_set_conv_nth)
  then show ?thesis
    by (auto simp: length_scoreSlots scoreSlots_nth)
qed

lemma FindOptimalSlot_empty:
  "findAvailableSlots req (\<lambda>k. events (AvailableSite k)) = [] \<Longrightarrow>
   FindOptimalSlot srt req events = Returns (None, None)"
  by (simp add: FindOptimalSlot_def)

lemma FindOptimalSlot_nonempty:
  assumes "sortSlice_sorts srt"
      and "findAvailableSlots req (\<lambda>k. events (AvailableSite k)) \<noteq> []"
  shows "\<exists>best rest.
           srt byScore (scoreSlots (findAvailableSlots req (\<lambda>k. events (AvailableSite k))) events)
             = best # rest
         \<and> FindOptimalSlot srt req events = Returns (Some best, None)"
proof -
  let ?scored = "scoreSlots (findAvailableSlots req (\<lambda>k. events (AvailableSite k))) events"
  from assms(1) have "mset (srt byScore ?scored) = mset ?scored"
    by (simp add: sortSlice_sorts_def)
  then have "length (srt byScore ?scored) = length ?scored"
    by (rule mset_eq_length)
  with assms(2) have "srt byScore ?scored \<noteq> []"
    by (auto simp: length_scoreSlots)
  then obtain best rest where "srt byScore ?scored = best # rest"
    by (cases "srt byScore ?scored") auto
  with assms(2) show ?thesis
    by (simp add: FindOptimalSlot_def Let_def)
qed

lemma FindOptimalSlot_some:
  assumes "sortSlice_sorts srt"
      and "FindOptimalSlot srt req events = Returns (Some best, err)"
  shows "best \<in> set (scoreSlots (findAvailableSlots req (\<lambda>k. events (AvailableSite k))) events)"
proof -
  let ?slots = "findAvailableSlots req (\<lambda>k. events (AvailableSite k))"
  have ne: "?slots \<noteq> []"
    using assms(2) by (auto simp: FindOptimalSlot_def)
  from FindOptimalSlot_nonempty [OF assms(1) ne] obtain b rest where
    b: "srt byScore (scoreSlots ?slots events) = b # rest"
       "FindOptimalSlot srt req events = Returns (Some b, None)"
    by blast
  with assms(2) have "b = best" by simp
  moreover have "b \<in> set (srt byScore (scoreSlots ?slots events))"
    using b(1) by simp
  moreover have "set (srt byScore (scoreSlots ?slots events)) = set (scoreSlots ?slots events)"
    using assms(1) by (auto simp: sortSlice_sorts_def dest: mset_eq_setD)
  ultimately show ?thesis by simp
qed

lemma sorted_head_maximal:
  assumes "sortSlice_sorts srt" and "srt byScore xs = best # rest"
  shows "best \<in> set xs \<and> (\<forall>t \<in> set xs. Score t \<le> Score best)"
proof -
  from assms(1) have perm: "mset (srt byScore xs) = mset xs"
    and ord: "sorted_wrt (\<lambda>a b. \<not> byScore b a) (srt byScore xs)"
    by (simp_all add: sortSlice_sorts_def)
  from perm have sets: "set xs = set (best # rest)"
    unfolding assms(2) [symmetric] by (metis mset_eq_setD)
  from ord have "\<forall>t \<in> set rest. Score t \<le> Score best"
    unfolding assms(2) by (auto simp: byScore_def)
  with sets show ?thesis by auto
qed

lemma stable_head_first:
  assumes "sortSlice_stable srt" and "srt byScore xs = best # rest"
      and "sorted_wrt (\<lambda>a b. instant (Start a) < instant (Start b)) xs"
  shows "\<forall>t \<in> set xs. Score t = Score best \<longrightarrow> instant (Start best) \<le> instant (Start t)"
proof -
  let ?same = "\<lambda>t. Score t = Score best"
  from assms(1) have "filter ?same (srt byScore xs) = filter ?same xs"
    by (simp add: sortSlice_stable_def)
  then have eq: "filter ?same xs = best # filter ?same rest"
    by (simp add: assms(2))
  have "sorted_wrt (\<lambda>a b. instant (Start a) < instant (Start b)) (filter ?same xs)"
    using assms(3) by (rule sorted_wrt_filter)
  then have "\<forall>t \<in> set (filter ?same rest). instant (Start best) < instant (Start t)"
    unfolding eq by simp
  moreover have "{t \<in> set xs. ?same t} = insert best (set (filter ?same rest))"
    using arg_cong [OF eq, of set] by simp
  ultimately show ?thesis by force
qed

lemma scoreSlots_sorted:
  assumes "sorted_wrt (\<lambda>a b. instant (Start a) < instant (Start b)) slots"
  shows "sorted_wrt (\<lambda>a b. instant (Start a) < instant (Start b)) (scoreSlots slots events)"
  using assms by (simp add: sorted_wrt_iff_nth_less length_scoreSlots scoreSlots_nth)

section \<open>The search on a window from 09:00 to 10:30\<close>

lemma slots_0900_1030:
  "findAvailableSlots (request [''user1''] 60 (on_2024_09_01 9 0) (on_2024_09_01 10 30)) (\<lambda>k. [])
   = [\<lparr>Start = on_2024_09_01 9 0, End = on_2024_09_01 10 0, Score = 0\<rparr>,
      \<lparr>Start = on_2024_09_01 9 15, End = on_2024_09_01 10 15, Score = 0\<rparr>]"
  by (simp add: findAvailableSlots_def findLoop.simps request_def on_2024_09_01_def
        Before_def Add_def minutesDuration_def wrap64_def Minute_def step15_def
        signed_take_bit_eq_take_bit_minus Let_def)

lemma score_0900: "calculateSlotScore \<lparr>Start = on_2024_09_01 9 0, End = on_2024_09_01 10 0, Score = 0\<rparr> [] []
   = 3152519739159347 / 1125899906842624"
  by code_simp

lemma score_0915: "calculateSlotScore \<lparr>Start = on_2024_09_01 9 15, End = on_2024_09_01 10 15, Score = 0\<rparr> [] []
   = 3152519739159347 / 1125899906842624"
  by code_simp

lemma scored_pair:
  "scoreSlots [\<lparr>Start = on_2024_09_01 9 0, End = on_2024_09_01 10 0, Score = 0\<rparr>,
               \<lparr>Start = on_2024_09_01 9 15, End = on_2024_09_01 10 15, Score = 0\<rparr>] (\<lambda>site. [])
   = [\<lparr>Start = on_2024_09_01 9 0, End = on_2024_09_01 10 0, Score = 3152519739159347 / 1125899906842624\<rparr>,
      \<lparr>Start = on_2024_09_01 9 15, End = on_2024_09_01 10 15, Score = 3152519739159347 / 1125899906842624\<rparr>]"
  by (simp add: scoreSlots_def enumerate_eq_zip score_0900 score_0915 upt_rec)

lemma scored_0900_1030:
  "scoreSlots (findAvailableSlots (request [''user1''] 60 (on_2024_09_01 9 0) (on_2024_09_01 10 30))
                 (\<lambda>k. [])) (\<lambda>site. [])
   = [\<lparr>Start = on_2024_09_01 9 0, End = on_2024_09_01 10 0, Score = 3152519739159347 / 1125899906842624\<rparr>,
      \<lparr>Start = on_2024_09_01 9 15, End = on_2024_09_01 10 15, Score = 3152519739159347 / 1125899906842624\<rparr>]"
  by (simp only: slots_0900_1030 scored_pair)

section \<open>The search on a window from 09:00 to 17:00 without busy intervals\<close>

lemma Hour_on_2024_09_01:
  assumes h: "0 \<le> h" "h < 24" and m: "0 \<le> m" "m < 60"
  shows "Hour (on_2024_09_01 h m) = h"
proof -
  have sec: "instant (on_2024_09_01 h m) div 1000000000 = 739129 * 86400 + h * 3600 + m * 60"
    by (simp add: on_2024_09_01_def)
  have z: "zone (on_2024_09_01 h m) = UTC"
    by (simp add: on_2024_09_01_def)
  have "(86400 * 739129 + (h * 3600 + m * 60)) mod 86400 = (h * 3600 + m * 60) mod 86400"
    by (rule mod_mult_self4)
  also have "\<dots> = h * 3600 + m * 60"
    using h m by (intro mod_pos_pos_trivial) auto
  finally have day: "(739129 * 86400 + h * 3600 + m * 60 + 0) mod 86400 = h * 3600 + m * 60"
    by (simp add: algebra_simps)
  have hour: "(h * 3600 + m * 60) div 3600 = h"
    using h m by auto
  have "Hour (on_2024_09_01 h m) = (739129 * 86400 + h * 3600 + m * 60 + 0) mod 86400 div 3600"
    unfolding Hour_def Let_def sec z UTC_def by (rule refl)
  also have "\<dots> = h"
    by (simp only: day hour)
  finally show ?thesis .
qed

text \<open>
  Without busy intervals the two gap scores are 1, whether the map is empty or has a
  participant with an empty list, and the score of a slot is a function of its hour.
\<close>

lemma average_nil: "average [] = 1"
  by (simp add: average_def)

lemma average_one: "average [1] = 1"
  by (simp add: average_def float_eval)

lemma gap_scores_no_events:
  assumes "es = [] \<or> es = [(user, [])]"
  shows "gapMinimizationScore slot es = 1" and "bufferTimeScore slot es = 1"
proof -
  from assms show "gapMinimizationScore slot es = 1"
  proof
    assume "es = []" then show ?thesis
      by (simp add: gapMinimizationScore_def average_nil)
  next
    assume "es = [(user, [])]" then show ?thesis
      by (simp add: gapMinimizationScore_def gapUser_def average_one)
  qed
  from assms show "bufferTimeScore slot es = 1"
  proof
    assume "es = []" then show ?thesis
      by (simp add: bufferTimeScore_def average_nil)
  next
    assume "es = [(user, [])]" then show ?thesis
      by (simp add: bufferTimeScore_def bufferUser_def average_one)
  qed
qed

lemma score_by_hour:
  assumes "es = [] \<or> es = [(user, [])]" and "es' = [] \<or> es' = [(user, [])]"
  shows "Hour (Start slot) = 5 \<Longrightarrow> calculateSlotScore slot es es' = 1"
    and "Hour (Start slot) = 6 \<Longrightarrow> calculateSlotScore slot es es' = 1"
    and "Hour (Start slot) = 7 \<Longrightarrow> calculateSlotScore slot es es' = 1"
    and "Hour (Start slot) = 8 \<Longrightarrow> calculateSlotScore slot es es' = 3 / 2"
    and "Hour (Start slot) = 9 \<Longrightarrow> calculateSlotScore slot es es' = 3152519739159347 / 1125899906842624"
    and "Hour (Start slot) = 10 \<Longrightarrow> calculateSlotScore slot es es' = 3039929748475085 / 1125899906842624"
    and "Hour (Start slot) = 11 \<Longrightarrow> calculateSlotScore slot es es' = 5854679515581645 / 2251799813685248"
    and "Hour (Start slot) = 12 \<Longrightarrow> calculateSlotScore slot es es' = 5 / 2"
    and "Hour (Start slot) = 13 \<Longrightarrow> calculateSlotScore slot es es' = 5404319552844595 / 2251799813685248"
    and "Hour (Start slot) = 14 \<Longrightarrow> calculateSlotScore slot es es' = 2589569785738035 / 1125899906842624"
    and "Hour (Start slot) = 15 \<Longrightarrow> calculateSlotScore slot es es' = 4953959590107545 / 2251799813685248"
  by (simp_all add: calculateSlotScore_def workingHoursScore_def earlySlotScore_def
        gap_scores_no_events [OF assms(1)] gap_scores_no_events [OF assms(2)]
        workingHoursWeight_def earlySlotWeight_def gapMinimizationWeight_def bufferTimeWeight_def
        workDayStart_def workDayEnd_def float_eval)

lemma slots_0900_1700:
  assumes "\<forall>k. av k = [] \<or> av k = [(user, [])]"
  shows "findAvailableSlots (request ids 60 (on_2024_09_01 9 0) (on_2024_09_01 17 0)) av
   = [\<lparr>Start = on_2024_09_01 9 0, End = on_2024_09_01 10 0, Score = 0\<rparr>,
      \<lparr>Start = on_2024_09_01 9 15, End = on_2024_09_01 10 15, Score = 0\<rparr>,
      \<lparr>Start = on_2024_09_01 9 30, End = on_2024_09_01 10 30, Score = 0\<rparr>,
      \<lparr>Start = on_2024_09_01 9 45, End = on_2024_09_01 10 45, Score = 0\<rparr>,
      \<lparr>Start = on_2024_09_01 10 0, End = on_2024_09_01 11 0, Score = 0\<rparr>,
      \<lparr>Start = on_2024_09_01 10 15, End = on_2024_09_01 11 15, Score = 0\<rparr>,
      \<lparr>Start = on_2024_09_01 10 30, End = on_2024_09_01 11 30, Score = 0\<rparr>,
      \<lparr>Start = on_2024_09_01 10 45, End = on_2024_09_01 11 45, Score = 0\<rparr>,
      \<lparr>Start = on_2024_09_01 11 0, End = on_2024_09_01 12 0, Score = 0\<rparr>,
      \<lparr>Start = on_2024_09_01 11 15, End = on_2024_09_01 12 15, Score = 0\<rparr>,
      \<lparr>Start = on_2024_09_01 11 30, End = on_2024_09_01 12 30, Score = 0\<rparr>,
      \<lparr>Start = on_2024_09_01 11 45, End = on_2024_09_01 12 45, Score = 0\<rparr>,
      \<lparr>Start = on_2024_09_01 12 0, End = on_2024_09_01 13 0, Score = 0\<rparr>,
      \<lparr>Start = on_2024_09_01 12 15, End = on_2024_09_01 13 15, Score = 0\<rparr>,
      \<lparr>Start = on_2024_09_01 12 30, End = on_2024_09_01 13 30, Score = 0\<rparr>,
      \<lparr>Start = on_2024_09_01 12 45, End = on_2024_09_01 13 45, Score = 0\<rparr>,
      \<lparr>Start = on_2024_09_01 13 0, End = on_2024_09_01 14 0, Score = 0\<rparr>,
      \<lparr>Start = on_2024_09_01 13 15, End = on_2024_09_01 14 15, Score = 0\<rparr>,
      \<lparr>Start = on_2024_09_01 13 30, End = on_2024_09_01 14 30, Score = 0\<rparr>,
      \<lparr>Start = on_2024_09_01 13 45, End = on_2024_09_01 14 45, Score = 0\<rparr>,
      \<lparr>Start = on_2024_09_01 14 0, End = on_2024_09_01 15 0, Score = 0\<rparr>,
      \<lparr>Start = on_2024_09_01 14 15, End = on_2024_09_01 15 15, Score = 0\<rparr>,
      \<lparr>Start = on_2024_09_01 14 30, End = on_2024_09_01 15 30, Score = 0\<rparr>,
      \<lparr>Start = on_2024_09_01 14 45, End = on_2024_09_01 15 45, Score = 0\<rparr>,
      \<lparr>Start = on_2024_09_01 15 0, End = on_2024_09_01 16 0, Score = 0\<rparr>,
      \<lparr>Start = on_2024_09_01 15 15, End = on_2024_09_01 16 15, Score = 0\<rparr>,
      \<lparr>Start = on_2024_09_01 15 30, End = on_2024_09_01 16 30, Score = 0\<rparr>,
      \<lparr>Start = on_2024_09_01 15 45, End = on_2024_09_01 16 45, Score = 0\<rparr>]"
proof -
  have free: "isSlotAvailable c d (av k)" for c d k
    using assms [rule_format, of k] by auto
  show ?thesis
    by (simp add: findAvailableSlots_def findLoop.simps request_def on_2024_09_01_def free
        Before_def Add_def minutesDuration_def wrap64_def Minute_def step15_def
        signed_take_bit_eq_take_bit_minus Let_def)
qed

lemma scored_0900_1700:
  assumes "\<forall>site. events site = [] \<or> events site = [(user, [])]"
  shows "scoreSlots [\<lparr>Start = on_2024_09_01 9 0, End = on_2024_09_01 10 0, Score = 0\<rparr>,
      \<lparr>Start = on_2024_09_01 9 15, End = on_2024_09_01 10 15, Score = 0\<rparr>,
      \<lparr>Start = on_2024_09_01 9 30, End = on_2024_09_01 10 30, Score = 0\<rparr>,
      \<lparr>Start = on_2024_09_01 9 45, End = on_2024_09_01 10 45, Score = 0\<rparr>,
      \<lparr>Start = on_2024_09_01 10 0, End = on_2024_09_01 11 0, Score = 0\<rparr>,
      \<lparr>Start = on_2024_09_01 10 15, End = on_2024_09_01 11 15, Score = 0\<rparr>,
      \<lparr>Start = on_2024_09_01 10 30, End = on_2024_09_01 11 30, Score = 0\<rparr>,
      \<lparr>Start = on_2024_09_01 10 45, End = on_2024_09_01 11 45, Score = 0\<rparr>,
      \<lparr>Start = on_2024_09_01 11 0, End = on_2024_09_01 12 0, Score = 0\<rparr>,
      \<lparr>Start = on_2024_09_01 11 15, End = on_2024_09_01 12 15, Score = 0\<rparr>,
      \<lparr>Start = on_2024_09_01 11 30, End = on_2024_09_01 12 30, Score = 0\<rparr>,
      \<lparr>Start = on_2024_09_01 11 45, End = on_2024_09_01 12 45, Score = 0\<rparr>,
      \<lparr>Start = on_2024_09_01 12 0, End = on_2024_09_01 13 0, Score = 0\<rparr>,
      \<lparr>Start = on_2024_09_01 12 15, End = on_2024_09_01 13 15, Score = 0\<rparr>,
      \<lparr>Start = on_2024_09_01 12 30, End = on_2024_09_01 13 30, Score = 0\<rparr>,
      \<lparr>Start = on_2024_09_01 12 45, End = on_2024_09_01 13 45, Score = 0\<rparr>,
      \<lparr>Start = on_2024_09_01 13 0, End = on_2024_09_01 14 0, Score = 0\<rparr>,
      \<lparr>Start = on_2024_09_01 13 15, End = on_2024_09_01 14 15, Score = 0\<rparr>,
      \<lparr>Start = on_2024_09_01 13 30, End = on_2024_09_01 14 30, Score = 0\<rparr>,
      \<lparr>Start = on_2024_09_01 13 45, End = on_2024_09_01 14 45, Score = 0\<rparr>,
      \<lparr>Start = on_2024_09_01 14 0, End = on_2024_09_01 15 0, Score = 0\<rparr>,
      \<lparr>Start = on_2024_09_01 14 15, End = on_2024_09_01 15 15, Score = 0\<rparr>,
      \<lparr>Start = on_2024_09_01 14 30, End = on_2024_09_01 15 30, Score = 0\<rparr>,
      \<lparr>Start = on_2024_09_01 14 45, End = on_2024_09_01 15 45, Score = 0\<rparr>,
      \<lparr>Start = on_2024_09_01 15 0, End = on_2024_09_01 16 0, Score = 0\<rparr>,
      \<lparr>Start = on_2024_09_01 15 15, End = on_2024_09_01 16 15, Score = 0\<rparr>,
      \<lparr>Start = on_2024_09_01 15 30, End = on_2024_09_01 16 30, Score = 0\<rparr>,
      \<lparr>Start = on_2024_09_01 15 45, End = on_2024_09_01 16 45, Score = 0\<rparr>] events
   = [\<lparr>Start = on_2024_09_01 9 0, End = on_2024_09_01 10 0, Score = 3152519739159347 / 1125899906842624\<rparr>,
      \<lparr>Start = on_2024_09_01 9 15, End = on_2024_09_01 10 15, Score = 3152519739159347 / 1125899906842624\<rparr>,
      \<lparr>Start = on_2024_09_01 9 30, End = on_2024_09_01 10 30, Score = 3152519739159347 / 1125899906842624\<rparr>,
      \<lparr>Start = on_2024_09_01 9 45, End = on_2024_09_01 10 45, Score = 3152519739159347 / 1125899906842624\<rparr>,
      \<lparr>Start = on_2024_09_01 10 0, End = on_2024_09_01 11 0, Score = 3039929748475085 / 1125899906842624\<rparr>,
      \<lparr>Start = on_2024_09_01 10 15, End = on_2024_09_01 11 15, Score = 3039929748475085 / 1125899906842624\<rparr>,
      \<lparr>Start = on_2024_09_01 10 30, End = on_2024_09_01 11 30, Score = 3039929748475085 / 1125899906842624\<rparr>,
      \<lparr>Start = on_2024_09_01 10 45, End = on_2024_09_01 11 45, Score = 3039929748475085 / 1125899906842624\<rparr>,
      \<lparr>Start = on_2024_09_01 11 0, End = on_2024_09_01 12 0, Score = 5854679515581645 / 2251799813685248\<rparr>,
      \<lparr>Start = on_2024_09_01 11 15, End = on_2024_09_01 12 15, Score = 5854679515581645 / 2251799813685248\<rparr>,
      \<lparr>Start = on_2024_09_01 11 30, End = on_2024_09_01 12 30, Score = 5854679515581645 / 2251799813685248\<rparr>,
      \<lparr>Start = on_2024_09_01 11 45, End = on_2024_09_01 12 45, Score = 5854679515581645 / 2251799813685248\<rparr>,
      \<lparr>Start = on_2024_09_01 12 0, End = on_2024_09_01 13 0, Score = 5 / 2\<rparr>,
      \<lparr>Start = on_2024_09_01 12 15, End = on_2024_09_01 13 15, Score = 5 / 2\<rparr>,
      \<lparr>Start = on_2024_09_01 12 30, End = on_2024_09_01 13 30, Score = 5 / 2\<rparr>,
      \<lparr>Start = on_2024_09_01 12 45, End = on_2024_09_01 13 45, Score = 5 / 2\<rparr>,
      \<lparr>Start = on_2024_09_01 13 0, End = on_2024_09_01 14 0, Score = 5404319552844595 / 2251799813685248\<rparr>,
      \<lparr>Start = on_2024_09_01 13 15, End = on_2024_09_01 14 15, Score = 5404319552844595 / 2251799813685248\<rparr>,
      \<lparr>Start = on_2024_09_01 13 30, End = on_2024_09_01 14 30, Score = 5404319552844595 / 2251799813685248\<rparr>,
      \<lparr>Start = on_2024_09_01 13 45, End = on_2024_09_01 14 45, Score = 5404319552844595 / 2251799813685248\<rparr>,
      \<lparr>Start = on_2024_09_01 14 0, End = on_2024_09_01 15 0, Score = 2589569785738035 / 1125899906842624\<rparr>,
      \<lparr>Start = on_2024_09_01 14 15, End = on_2024_09_01 15 15, Score = 2589569785738035 / 1125899906842624\<rparr>,
      \<lparr>Start = on_2024_09_01 14 30, End = on_2024_09_01 15 30, Score = 2589569785738035 / 1125899906842624\<rparr>,
      \<lparr>Start = on_2024_09_01 14 45, End = on_2024_09_01 15 45, Score = 2589569785738035 / 1125899906842624\<rparr>,
      \<lparr>Start = on_2024_09_01 15 0, End = on_2024_09_01 16 0, Score = 4953959590107545 / 2251799813685248\<rparr>,
      \<lparr>Start = on_2024_09_01 15 15, End = on_2024_09_01 16 15, Score = 4953959590107545 / 2251799813685248\<rparr>,
      \<lparr>Start = on_2024_09_01 15 30, End = on_2024_09_01 16 30, Score = 4953959590107545 / 2251799813685248\<rparr>,
      \<lparr>Start = on_2024_09_01 15 45, End = on_2024_09_01 16 45, Score = 4953959590107545 / 2251799813685248\<rparr>]"
proof -
  have sites: "events (GapSite i) = [] \<or> events (GapSite i) = [(user, [])]"
      "events (BufferSite i) = [] \<or> events (BufferSite i) = [(user, [])]" for i
    using assms by blast+
  show ?thesis
    by (simp add: scoreSlots_def enumerate_eq_zip upt_rec score_by_hour [OF sites] Hour_on_2024_09_01)
qed

lemma sorted_0900_1700:
  "sortSlice_go byScore
    [\<lparr>Start = on_2024_09_01 9 0, End = on_2024_09_01 10 0, Score = 3152519739159347 / 1125899906842624\<rparr>,
      \<lparr>Start = on_2024_09_01 9 15, End = on_2024_09_01 10 15, Score = 3152519739159347 / 1125899906842624\<rparr>,
      \<lparr>Start = on_2024_09_01 9 30, End = on_2024_09_01 10 30, Score = 3152519739159347 / 1125899906842624\<rparr>,
      \<lparr>Start = on_2024_09_01 9 45, End = on_2024_09_01 10 45, Score = 3152519739159347 / 1125899906842624\<rparr>,
      \<lparr>Start = on_2024_09_01 10 0, End = on_2024_09_01 11 0, Score = 3039929748475085 / 1125899906842624\<rparr>,
      \<lparr>Start = on_2024_09_01 10 15, End = on_2024_09_01 11 15, Score = 3039929748475085 / 1125899906842624\<rparr>,
      \<lparr>Start = on_2024_09_01 10 30, End = on_2024_09_01 11 30, Score = 3039929748475085 / 1125899906842624\<rparr>,
      \<lparr>Start = on_2024_09_01 10 45, End = on_2024_09_01 11 45, Score = 3039929748475085 / 1125899906842624\<rparr>,
      \<lparr>Start = on_2024_09_01 11 0, End = on_2024_09_01 12 0, Score = 5854679515581645 / 2251799813685248\<rparr>,
      \<lparr>Start = on_2024_09_01 11 15, End = on_2024_09_01 12 15, Score = 5854679515581645 / 2251799813685248\<rparr>,
      \<lparr>Start = on_2024_09_01 11 30, End = on_2024_09_01 12 30, Score = 5854679515581645 / 2251799813685248\<rparr>,
      \<lparr>Start = on_2024_09_01 11 45, End = on_2024_09_01 12 45, Score = 5854679515581645 / 2251799813685248\<rparr>,
      \<lparr>Start = on_2024_09_01 12 0, End = on_2024_09_01 13 0, Score = 5 / 2\<rparr>,
      \<lparr>Start = on_2024_09_01 12 15, End = on_2024_09_01 13 15, Score = 5 / 2\<rparr>,
      \<lparr>Start = on_2024_09_01 12 30, End = on_2024_09_01 13 30, Score = 5 / 2\<rparr>,
      \<lparr>Start = on_2024_09_01 12 45, End = on_2024_09_01 13 45, Score = 5 / 2\<rparr>,
      \<lparr>Start = on_2024_09_01 13 0, End = on_2024_09_01 14 0, Score = 5404319552844595 / 2251799813685248\<rparr>,
      \<lparr>Start = on_2024_09_01 13 15, End = on_2024_09_01 14 15, Score = 5404319552844595 / 2251799813685248\<rparr>,
      \<lparr>Start = on_2024_09_01 13 30, End = on_2024_09_01 14 30, Score = 5404319552844595 / 2251799813685248\<rparr>,
      \<lparr>Start = on_2024_09_01 13 45, End = on_2024_09_01 14 45, Score = 5404319552844595 / 2251799813685248\<rparr>,
      \<lparr>Start = on_2024_09_01 14 0, End = on_2024_09_01 15 0, Score = 2589569785738035 / 1125899906842624\<rparr>,
      \<lparr>Start = on_2024_09_01 14 15, End = on_2024_09_01 15 15, Score = 2589569785738035 / 1125899906842624\<rparr>,
      \<lparr>Start = on_2024_09_01 14 30, End = on_2024_09_01 15 30, Score = 2589569785738035 / 1125899906842624\<rparr>,
      \<lparr>Start = on_2024_09_01 14 45, End = on_2024_09_01 15 45, Score = 2589569785738035 / 1125899906842624\<rparr>,
      \<lparr>Start = on_2024_09_01 15 0, End = on_2024_09_01 16 0, Score = 4953959590107545 / 2251799813685248\<rparr>,
      \<lparr>Start = on_2024_09_01 15 15, End = on_2024_09_01 16 15, Score = 4953959590107545 / 2251799813685248\<rparr>,
      \<lparr>Start = on_2024_09_01 15 30, End = on_2024_09_01 16 30, Score = 4953959590107545 / 2251799813685248\<rparr>,
      \<lparr>Start = on_2024_09_01 15 45, End = on_2024_09_01 16 45, Score = 4953959590107545 / 2251799813685248\<rparr>]
   = [\<lparr>Start = on_2024_09_01 9 0, End = on_2024_09_01 10 0, Score = 3152519739159347 / 1125899906842624\<rparr>,
      \<lparr>Start = on_2024_09_01 9 15, End = on_2024_09_01 10 15, Score = 3152519739159347 / 1125899906842624\<rparr>,
      \<lparr>Start = on_2024_09_01 9 30, End = on_2024_09_01 10 30, Score = 3152519739159347 / 1125899906842624\<rparr>,
      \<lparr>Start = on_2024_09_01 9 45, End = on_2024_09_01 10 45, Score = 3152519739159347 / 1125899906842624\<rparr>,
      \<lparr>Start = on_2024_09_01 10 0, End = on_2024_09_01 11 0, Score = 3039929748475085 / 1125899906842624\<rparr>,
      \<lparr>Start = on_2024_09_01 10 15, End = on_2024_09_01 11 15, Score = 3039929748475085 / 1125899906842624\<rparr>,
      \<lparr>Start = on_2024_09_01 10 30, End = on_2024_09_01 11 30, Score = 3039929748475085 / 1125899906842624\<rparr>,
      \<lparr>Start = on_2024_09_01 10 45, End = on_2024_09_01 11 45, Score = 3039929748475085 / 1125899906842624\<rparr>,
      \<lparr>Start = on_2024_09_01 11 0, End = on_2024_09_01 12 0, Score = 5854679515581645 / 2251799813685248\<rparr>,
      \<lparr>Start = on_2024_09_01 11 15, End = on_2024_09_01 12 15, Score = 5854679515581645 / 2251799813685248\<rparr>,
      \<lparr>Start = on_2024_09_01 11 30, End = on_2024_09_01 12 30, Score = 5854679515581645 / 2251799813685248\<rparr>,
      \<lparr>Start = on_2024_09_01 11 45, End = on_2024_09_01 12 45, Score = 5854679515581645 / 2251799813685248\<rparr>,
      \<lparr>Start = on_2024_09_01 12 0, End = on_2024_09_01 13 0, Score = 5 / 2\<rparr>,
      \<lparr>Start = on_2024_09_01 12 15, End = on_2024_09_01 13 15, Score = 5 / 2\<rparr>,
      \<lparr>Start = on_2024_09_01 12 30, End = on_2024_09_01 13 30, Score = 5 / 2\<rparr>,
      \<lparr>Start = on_2024_09_01 12 45, End = on_2024_09_01 13 45, Score = 5 / 2\<rparr>,
      \<lparr>Start = on_2024_09_01 13 0, End = on_2024_09_01 14 0, Score = 5404319552844595 / 2251799813685248\<rparr>,
      \<lparr>Start = on_2024_09_01 13 15, End = on_2024_09_01 14 15, Score = 5404319552844595 / 2251799813685248\<rparr>,
      \<lparr>Start = on_2024_09_01 13 30, End = on_2024_09_01 14 30, Score = 5404319552844595 / 2251799813685248\<rparr>,
      \<lparr>Start = on_2024_09_01 13 45, End = on_2024_09_01 14 45, Score = 5404319552844595 / 2251799813685248\<rparr>,
      \<lparr>Start = on_2024_09_01 14 0, End = on_2024_09_01 15 0, Score = 2589569785738035 / 1125899906842624\<rparr>,
      \<lparr>Start = on_2024_09_01 14 15, End = on_2024_09_01 15 15, Score = 2589569785738035 / 1125899906842624\<rparr>,
      \<lparr>Start = on_2024_09_01 14 30, End = on_2024_09_01 15 30, Score = 2589569785738035 / 1125899906842624\<rparr>,
      \<lparr>Start = on_2024_09_01 14 45, End = on_2024_09_01 15 45, Score = 2589569785738035 / 1125899906842624\<rparr>,
      \<lparr>Start = on_2024_09_01 15 0, End = on_2024_09_01 16 0, Score = 4953959590107545 / 2251799813685248\<rparr>,
      \<lparr>Start = on_2024_09_01 15 15, End = on_2024_09_01 16 15, Score = 4953959590107545 / 2251799813685248\<rparr>,
      \<lparr>Start = on_2024_09_01 15 30, End = on_2024_09_01 16 30, Score = 4953959590107545 / 2251799813685248\<rparr>,
      \<lparr>Start = on_2024_09_01 15 45, End = on_2024_09_01 16 45, Score = 4953959590107545 / 2251799813685248\<rparr>]"
  by (simp add: go_sort_eval byScore_def)

lemma FindOptimalSlot_0900_1700:
  assumes "\<forall>site. events site = [] \<or> events site = [(user, [])]"
  shows "FindOptimalSlot sortSlice_go (request ids 60 (on_2024_09_01 9 0) (on_2024_09_01 17 0)) events
         = Returns (Some \<lparr>Start = on_2024_09_01 9 0, End = on_2024_09_01 10 0, Score = 3152519739159347 / 1125899906842624\<rparr>, None)"
proof -
  have av: "\<forall>k. events (AvailableSite k) = [] \<or> events (AvailableSite k) = [(user, [])]"
    using assms by blast
  note slots = slots_0900_1700 [of "\<lambda>k. events (AvailableSite k)", OF av]
  note scored = scored_0900_1700 [OF assms]
  show ?thesis
    by (simp add: FindOptimalSlot_def slots scored sorted_0900_1700)
qed

section \<open>The search on a window from 05:00 to 09:50 without busy intervals\<close>

lemma slots_0500_0950:
  "findAvailableSlots (request ids 30 (on_2024_09_01 5 0) (on_2024_09_01 9 50)) (\<lambda>k. [])
   = [\<lparr>Start = on_2024_09_01 5 0, End = on_2024_09_01 5 30, Score = 0\<rparr>,
      \<lparr>Start = on_2024_09_01 5 15, End = on_2024_09_01 5 45, Score = 0\<rparr>,
      \<lparr>Start = on_2024_09_01 5 30, End = on_2024_09_01 6 0, Score = 0\<rparr>,
      \<lparr>Start = on_2024_09_01 5 45, End = on_2024_09_01 6 15, Score = 0\<rparr>,
      \<lparr>Start = on_2024_09_01 6 0, End = on_2024_09_01 6 30, Score = 0\<rparr>,
      \<lparr>Start = on_2024_09_01 6 15, End = on_2024_09_01 6 45, Score = 0\<rparr>,
      \<lparr>Start = on_2024_09_01 6 30, End = on_2024_09_01 7 0, Score = 0\<rparr>,
      \<lparr>Start = on_2024_09_01 6 45, End = on_2024_09_01 7 15, Score = 0\<rparr>,
      \<lparr>Start = on_2024_09_01 7 0, End = on_2024_09_01 7 30, Score = 0\<rparr>,
      \<lparr>Start = on_2024_09_01 7 15, End = on_2024_09_01 7 45, Score = 0\<rparr>,
      \<lparr>Start = on_2024_09_01 7 30, End = on_2024_09_01 8 0, Score = 0\<rparr>,
      \<lparr>Start = on_2024_09_01 7 45, End = on_2024_09_01 8 15, Score = 0\<rparr>,
      \<lparr>Start = on_2024_09_01 8 0, End = on_2024_09_01 8 30, Score = 0\<rparr>,
      \<lparr>Start = on_2024_09_01 8 15, End = on_2024_09_01 8 45, Score = 0\<rparr>,
      \<lparr>Start = on_2024_09_01 8 30, End = on_2024_09_01 9 0, Score = 0\<rparr>,
      \<lparr>Start = on_2024_09_01 8 45, End = on_2024_09_01 9 15, Score = 0\<rparr>,
      \<lparr>Start = on_2024_09_01 9 0, End = on_2024_09_01 9 30, Score = 0\<rparr>,
      \<lparr>Start = on_2024_09_01 9 15, End = on_2024_09_01 9 45, Score = 0\<rparr>]"
  by (simp add: findAvailableSlots_def findLoop.simps request_def on_2024_09_01_def
        Before_def Add_def minutesDuration_def wrap64_def Minute_def step15_def
        signed_take_bit_eq_take_bit_minus Let_def)

lemma scored_0500_0950:
  "scoreSlots [\<lparr>Start = on_2024_09_01 5 0, End = on_2024_09_01 5 30, Score = 0\<rparr>,
      \<lparr>Start = on_2024_09_01 5 15, End = on_2024_09_01 5 45, Score = 0\<rparr>,
      \<lparr>Start = on_2024_09_01 5 30, End = on_2024_09_01 6 0, Score = 0\<rparr>,
      \<lparr>Start = on_2024_09_01 5 45, End = on_2024_09_01 6 15, Score = 0\<rparr>,
      \<lparr>Start = on_2024_09_01 6 0, End = on_2024_09_01 6 30, Score = 0\<rparr>,
      \<lparr>Start = on_2024_09_01 6 15, End = on_2024_09_01 6 45, Score = 0\<rparr>,
      \<lparr>Start = on_2024_09_01 6 30, End = on_2024_09_01 7 0, Score = 0\<rparr>,
      \<lparr>Start = on_2024_09_01 6 45, End = on_2024_09_01 7 15, Score = 0\<rparr>,
      \<lparr>Start = on_2024_09_01 7 0, End = on_2024_09_01 7 30, Score = 0\<rparr>,
      \<lparr>Start = on_2024_09_01 7 15, End = on_2024_09_01 7 45, Score = 0\<rparr>,
      \<lparr>Start = on_2024_09_01 7 30, End = on_2024_09_01 8 0, Score = 0\<rparr>,
      \<lparr>Start = on_2024_09_01 7 45, End = on_2024_09_01 8 15, Score = 0\<rparr>,
      \<lparr>Start = on_2024_09_01 8 0, End = on_2024_09_01 8 30, Score = 0\<rparr>,
      \<lparr>Start = on_2024_09_01 8 15, End = on_2024_09_01 8 45, Score = 0\<rparr>,
      \<lparr>Start = on_2024_09_01 8 30, End = on_2024_09_01 9 0, Score = 0\<rparr>,
      \<lparr>Start = on_2024_09_01 8 45, End = on_2024_09_01 9 15, Score = 0\<rparr>,
      \<lparr>Start = on_2024_09_01 9 0, End = on_2024_09_01 9 30, Score = 0\<rparr>,
      \<lparr>Start = on_2024_09_01 9 15, End = on_2024_09_01 9 45, Score = 0\<rparr>] (\<lambda>site. [])
   = [\<lparr>Start = on_2024_09_01 5 0, End = on_2024_09_01 5 30, Score = 1\<rparr>,
      \<lparr>Start = on_2024_09_01 5 15, End = on_2024_09_01 5 45, Score = 1\<rparr>,
      \<lparr>Start = on_2024_09_01 5 30, End = on_2024_09_01 6 0, Score = 1\<rparr>,
      \<lparr>Start = on_2024_09_01 5 45, End = on_2024_09_01 6 15, Score = 1\<rparr>,
      \<lparr>Start = on_2024_09_01 6 0, End = on_2024_09_01 6 30, Score = 1\<rparr>,
      \<lparr>Start = on_2024_09_01 6 15, End = on_2024_09_01 6 45, Score = 1\<rparr>,
      \<lparr>Start = on_2024_09_01 6 30, End = on_2024_09_01 7 0, Score = 1\<rparr>,
      \<lparr>Start = on_2024_09_01 6 45, End = on_2024_09_01 7 15, Score = 1\<rparr>,
      \<lparr>Start = on_2024_09_01 7 0, End = on_2024_09_01 7 30, Score = 1\<rparr>,
      \<lparr>Start = on_2024_09_01 7 15, End = on_2024_09_01 7 45, Score = 1\<rparr>,
      \<lparr>Start = on_2024_09_01 7 30, End = on_2024_09_01 8 0, Score = 1\<rparr>,
      \<lparr>Start = on_2024_09_01 7 45, End = on_2024_09_01 8 15, Score = 1\<rparr>,
      \<lparr>Start = on_2024_09_01 8 0, End = on_2024_09_01 8 30, Score = 3 / 2\<rparr>,
      \<lparr>Start = on_2024_09_01 8 15, End = on_2024_09_01 8 45, Score = 3 / 2\<rparr>,
      \<lparr>Start = on_2024_09_01 8 30, End = on_2024_09_01 9 0, Score = 3 / 2\<rparr>,
      \<lparr>Start = on_2024_09_01 8 45, End = on_2024_09_01 9 15, Score = 3 / 2\<rparr>,
      \<lparr>Start = on_2024_09_01 9 0, End = on_2024_09_01 9 30, Score = 3152519739159347 / 1125899906842624\<rparr>,
      \<lparr>Start = on_2024_09_01 9 15, End = on_2024_09_01 9 45, Score = 3152519739159347 / 1125899906842624\<rparr>]"
proof -
  have none: "([] :: entries) = [] \<or> [] = [(''user1'', [])]"
    by simp
  show ?thesis
    by (simp add: scoreSlots_def enumerate_eq_zip upt_rec score_by_hour [OF none none]
          Hour_on_2024_09_01)
qed

lemma sorted_0500_0950:
  "sortSlice_go byScore [\<lparr>Start = on_2024_09_01 5 0, End = on_2024_09_01 5 30, Score = 1\<rparr>,
      \<lparr>Start = on_2024_09_01 5 15, End = on_2024_09_01 5 45, Score = 1\<rparr>,
      \<lparr>Start = on_2024_09_01 5 30, End = on_2024_09_01 6 0, Score = 1\<rparr>,
      \<lparr>Start = on_2024_09_01 5 45, End = on_2024_09_01 6 15, Score = 1\<rparr>,
      \<lparr>Start = on_2024_09_01 6 0, End = on_2024_09_01 6 30, Score = 1\<rparr>,
      \<lparr>Start = on_2024_09_01 6 15, End = on_2024_09_01 6 45, Score = 1\<rparr>,
      \<lparr>Start = on_2024_09_01 6 30, End = on_2024_09_01 7 0, Score = 1\<rparr>,
      \<lparr>Start = on_2024_09_01 6 45, End = on_2024_09_01 7 15, Score = 1\<rparr>,
      \<lparr>Start = on_2024_09_01 7 0, End = on_2024_09_01 7 30, Score = 1\<rparr>,
      \<lparr>Start = on_2024_09_01 7 15, End = on_2024_09_01 7 45, Score = 1\<rparr>,
      \<lparr>Start = on_2024_09_01 7 30, End = on_2024_09_01 8 0, Score = 1\<rparr>,
      \<lparr>Start = on_2024_09_01 7 45, End = on_2024_09_01 8 15, Score = 1\<rparr>,
      \<lparr>Start = on_2024_09_01 8 0, End = on_2024_09_01 8 30, Score = 3 / 2\<rparr>,
      \<lparr>Start = on_2024_09_01 8 15, End = on_2024_09_01 8 45, Score = 3 / 2\<rparr>,
      \<lparr>Start = on_2024_09_01 8 30, End = on_2024_09_01 9 0, Score = 3 / 2\<rparr>,
      \<lparr>Start = on_2024_09_01 8 45, End = on_2024_09_01 9 15, Score = 3 / 2\<rparr>,
      \<lparr>Start = on_2024_09_01 9 0, End = on_2024_09_01 9 30, Score = 3152519739159347 / 1125899906842624\<rparr>,
      \<lparr>Start = on_2024_09_01 9 15, End = on_2024_09_01 9 45, Score = 3152519739159347 / 1125899906842624\<rparr>]
   = [\<lparr>Start = on_2024_09_01 9 15, End = on_2024_09_01 9 45, Score = 3152519739159347 / 1125899906842624\<rparr>,
      \<lparr>Start = on_2024_09_01 9 0, End = on_2024_09_01 9 30, Score = 3152519739159347 / 1125899906842624\<rparr>,
      \<lparr>Start = on_2024_09_01 8 0, End = on_2024_09_01 8 30, Score = 3 / 2\<rparr>,
      \<lparr>Start = on_2024_09_01 8 45, End = on_2024_09_01 9 15, Score = 3 / 2\<rparr>,
      \<lparr>Start = on_2024_09_01 8 30, End = on_2024_09_01 9 0, Score = 3 / 2\<rparr>,
      \<lparr>Start = on_2024_09_01 8 15, End = on_2024_09_01 8 45, Score = 3 / 2\<rparr>,
      \<lparr>Start = on_2024_09_01 6 0, End = on_2024_09_01 6 30, Score = 1\<rparr>,
      \<lparr>Start = on_2024_09_01 6 45, End = on_2024_09_01 7 15, Score = 1\<rparr>,
      \<lparr>Start = on_2024_09_01 7 0, End = on_2024_09_01 7 30, Score = 1\<rparr>,
      \<lparr>Start = on_2024_09_01 7 15, End = on_2024_09_01 7 45, Score = 1\<rparr>,
      \<lparr>Start = on_2024_09_01 7 30, End = on_2024_09_01 8 0, Score = 1\<rparr>,
      \<lparr>Start = on_2024_09_01 7 45, End = on_2024_09_01 8 15, Score = 1\<rparr>,
      \<lparr>Start = on_2024_09_01 6 30, End = on_2024_09_01 7 0, Score = 1\<rparr>,
      \<lparr>Start = on_2024_09_01 6 15, End = on_2024_09_01 6 45, Score = 1\<rparr>,
      \<lparr>Start = on_2024_09_01 5 0, End = on_2024_09_01 5 30, Score = 1\<rparr>,
      \<lparr>Start = on_2024_09_01 5 45, End = on_2024_09_01 6 15, Score = 1\<rparr>,
      \<lparr>Start = on_2024_09_01 5 30, End = on_2024_09_01 6 0, Score = 1\<rparr>,
      \<lparr>Start = on_2024_09_01 5 15, End = on_2024_09_01 5 45, Score = 1\<rparr>]"
  by (simp add: go_sort_eval byScore_def)

section \<open>Properties of the validator\<close>

lemma offendsFrom_0: "offendsFrom seen (x # xs) 0 \<longleftrightarrow> x = [] \<or> x \<in> seen"
  by (simp add: offendsFrom_def)

lemma offendsFrom_Suc: "offendsFrom seen (x # xs) (Suc i) \<longleftrightarrow> offendsFrom (insert x seen) xs i"
  by (auto simp: offendsFrom_def)

lemma checkParticipants_None:
  "checkParticipants ids seen = None \<longleftrightarrow> (\<forall>i. \<not> offendsFrom seen ids i)"
proof (induction ids arbitrary: seen)
  case Nil
  show ?case by (simp add: offendsFrom_def)
next
  case (Cons x xs)
  show ?case
  proof (cases "x = [] \<or> x \<in> seen")
    case True
    then have "offendsFrom seen (x # xs) 0" by (simp add: offendsFrom_0)
    with True show ?thesis by auto
  next
    case False
    have "(\<forall>i. \<not> offendsFrom seen (x # xs) i) \<longleftrightarrow> (\<forall>i. \<not> offendsFrom (insert x seen) xs i)"
    proof
      assume a: "\<forall>i. \<not> offendsFrom seen (x # xs) i"
      show "\<forall>i. \<not> offendsFrom (insert x seen) xs i"
      proof
        fix i from a have "\<not> offendsFrom seen (x # xs) (Suc i)" by blast
        then show "\<not> offendsFrom (insert x seen) xs i" by (simp add: offendsFrom_Suc)
      qed
    next
      assume a: "\<forall>i. \<not> offendsFrom (insert x seen) xs i"
      show "\<forall>i. \<not> offendsFrom seen (x # xs) i"
      proof
        fix i show "\<not> offendsFrom seen (x # xs) i"
          using a False by (cases i) (simp_all add: offendsFrom_0 offendsFrom_Suc)
      qed
    qed
    with False Cons.IH [of "insert x seen"] show ?thesis by simp
  qed
qed

lemma checkParticipants_Some:
  "checkParticipants ids seen = Some err \<Longrightarrow>
     \<exists>i. offendsFrom seen ids i \<and> (\<forall>j < i. \<not> offendsFrom seen ids j)
        \<and> err = (if ids ! i = [] then msgEmptyID else msgDuplicate)"
proof (induction ids arbitrary: seen)
  case Nil
  then show ?case by simp
next
  case (Cons x xs)
  show ?case
  proof (cases "x = [] \<or> x \<in> seen")
    case True
    with Cons.prems have "err = (if x = [] then msgEmptyID else msgDuplicate)"
      by (auto split: if_splits)
    with True show ?thesis
      by (intro exI [of _ 0]) (simp add: offendsFrom_0)
  next
    case False
    with Cons.prems have "checkParticipants xs (insert x seen) = Some err"
      by simp
    from Cons.IH [OF this] obtain i where
      i: "offendsFrom (insert x seen) xs i" "\<forall>j < i. \<not> offendsFrom (insert x seen) xs j"
         "err = (if xs ! i = [] then msgEmptyID else msgDuplicate)"
      by blast
    have "\<not> offendsFrom seen (x # xs) j" if "j < Suc i" for j
      using that i(2) False by (cases j) (simp_all add: offendsFrom_0 offendsFrom_Suc)
    with i(1,3) show ?thesis
      by (intro exI [of _ "Suc i"]) (simp add: offendsFrom_Suc)
  qed
qed

lemma offendsFrom_empty: "offendsFrom {} ids i = offends ids i"
  by (simp add: offendsFrom_def offends_def)

lemma firstOffender_unique: "firstOffender ids i \<Longrightarrow> firstOffender ids j \<Longrightarrow> i = j"
  unfolding firstOffender_def by (meson linorder_neqE_nat)

lemma checkParticipants_firstOffender:
  "checkParticipants ids {} =
     (if \<exists>i. firstOffender ids i \<and> ids ! i = [] then Some msgEmptyID
      else if \<exists>i. firstOffender ids i \<and> ids ! i \<noteq> [] then Some msgDuplicate
      else None)"
proof (cases "checkParticipants ids {}")
  case None
  then have "\<forall>i. \<not> offends ids i"
    by (simp add: checkParticipants_None offendsFrom_empty)
  with None show ?thesis
    by (auto simp: firstOffender_def)
next
  case (Some err)
  from checkParticipants_Some [OF this] obtain i where
    i: "firstOffender ids i" "err = (if ids ! i = [] then msgEmptyID else msgDuplicate)"
    by (auto simp: firstOffender_def offendsFrom_empty)
  show ?thesis
  proof (cases "ids ! i = []")
    case True
    with i Some show ?thesis by auto
  next
    case False
    have "\<not> (\<exists>j. firstOffender ids j \<and> ids ! j = [])"
      using firstOffender_unique [OF i(1)] False by blast
    with False i Some show ?thesis by auto
  qed
qed

section \<open>Properties of the service\<close>

lemma validateScheduleRequest_state:
  "snd (validateScheduleRequest addDate clock req w) = w
   \<or> snd (validateScheduleRequest addDate clock req w) = snd (clock w)"
  by (cases "clock w")
     (simp add: validateScheduleRequest_def Let_def split: option.splits)

lemma FindOptimalSlot_outcome:
  assumes "sortSlice_sorts srt"
  shows "\<exists>slot. FindOptimalSlot srt req events = Returns (slot, None)
           \<and> (slot = None \<longleftrightarrow> findAvailableSlots req (\<lambda>k. events (AvailableSite k)) = [])"
proof (cases "findAvailableSlots req (\<lambda>k. events (AvailableSite k)) = []")
  case True
  then show ?thesis
    by (simp add: FindOptimalSlot_empty)
next
  case False
  from FindOptimalSlot_nonempty [OF assms False] False show ?thesis
    by auto
qed

lemmas mock_eval = mockSurroundings_def storedEvents_def request_def on_2024_09_01_def busy_def
  addDateFlat_def validateScheduleRequest_def IsZero_def After_def Before_def Add_def Minute_def
  minutesDuration_def wrap64_def signed_take_bit_eq_take_bit_minus step15_def Let_def

section \<open>A duration that fills the window\<close>

lemma checkParticipants_distinct:
  "checkParticipants ids seen = None \<longleftrightarrow> distinct ids \<and> [] \<notin> set ids \<and> set ids \<inter> seen = {}"
  by (induction ids arbitrary: seen) auto

lemma minutesDuration_valid:
  "0 < n \<Longrightarrow> n \<le> 480 \<Longrightarrow> minutesDuration n = n * Minute"
  by (simp add: minutesDuration_def Minute_def wrap64_id)

lemma findLoop_window_filled:
  assumes "instant (range_End (TimeRange req))
             \<le> instant current + minutesDuration (DurationMinutes req)"
  shows "findLoop req av k current = []"
proof -
  have "s \<notin> set (findLoop req av k current)" for s
  proof
    assume "s \<in> set (findLoop req av k current)"
    from findLoop_sound [OF this] obtain j where
      j: "Start s = Add current (int j * step15)"
         "End s = Add (Start s) (minutesDuration (DurationMinutes req))"
         "Before (End s) (range_End (TimeRange req))"
      by blast
    have "0 \<le> int j * step15"
      using step15_pos by simp
    with j assms show False
      by (simp add: Before_def instant_Add)
  qed
  then show ?thesis
    by (cases "findLoop req av k current") auto
qed

text \<open>
  Claim C2.  Let every visit of the map in the enumeration see the entries \<open>es\<close>.  Every
  candidate of \<^verbatim>\<open>findAvailableSlots\<close> ends one duration after its start, starts a
  multiple of 15 minutes after the start of the window and before the end of the window, ends
  strictly before the end of the window, and is free against every busy interval of every
  participant.  The candidates come in strictly ascending order of their starts.  Conversely
  the slot at every such grid point is a candidate.  A slot returned by
  \<^verbatim>\<open>FindOptimalSlot\<close> has the start and the end of a candidate, so all of this holds for
  it too.  The duration is \<^verbatim>\<open>time.Duration(DurationMinutes) * time.Minute\<close>, which is the
  number of minutes of the request whenever that fits 64 bits.
\<close>

theorem findAvailableSlots_grid:
  assumes orders: "\<forall>k. set (events (AvailableSite k)) = set es"
  shows
   "(\<forall>s \<in> set (findAvailableSlots req (\<lambda>k. events (AvailableSite k))).
        End s = Add (Start s) (minutesDuration (DurationMinutes req))
      \<and> (\<exists>k::nat. Start s = Add (range_Start (TimeRange req)) (int k * (15 * Minute)))
      \<and> instant (Start s) < instant (range_End (TimeRange req))
      \<and> instant (End s) < instant (range_End (TimeRange req))
      \<and> (\<forall>(user, userEvents) \<in> set es. \<forall>b \<in> set userEvents.
            instant (End s) < instant (StartTime b) \<or> instant (Start s) > instant (EndTime b)))
    \<and> sorted_wrt (\<lambda>a b. instant (Start a) < instant (Start b))
         (findAvailableSlots req (\<lambda>k. events (AvailableSite k)))
    \<and> (\<forall>k::nat. \<forall>c d.
          c = Add (range_Start (TimeRange req)) (int k * (15 * Minute))
        \<and> d = Add c (minutesDuration (DurationMinutes req))
        \<and> instant c < instant (range_End (TimeRange req))
        \<and> instant d < instant (range_End (TimeRange req))
        \<and> (\<forall>(user, userEvents) \<in> set es. \<forall>b \<in> set userEvents.
              instant d < instant (StartTime b) \<or> instant c > instant (EndTime b))
        \<longrightarrow> \<lparr>Start = c, End = d, Score = 0\<rparr>
              \<in> set (findAvailableSlots req (\<lambda>k. events (AvailableSite k))))
    \<and> (\<forall>best err. sortSlice_sorts srt \<and> FindOptimalSlot srt req events = Returns (Some best, err)
        \<longrightarrow> End best = Add (Start best) (minutesDuration (DurationMinutes req))
          \<and> (\<exists>k::nat. Start best = Add (range_Start (TimeRange req)) (int k * (15 * Minute)))
          \<and> instant (Start best) < instant (range_End (TimeRange req))
          \<and> instant (End best) < instant (range_End (TimeRange req))
          \<and> (\<forall>(user, userEvents) \<in> set es. \<forall>b \<in> set userEvents.
                instant (End best) < instant (StartTime b) \<or> instant (Start best) > instant (EndTime b)))
    \<and> (- (2 ^ 63) \<le> DurationMinutes req * Minute \<and> DurationMinutes req * Minute < 2 ^ 63
        \<longrightarrow> minutesDuration (DurationMinutes req) = DurationMinutes req * Minute)"
proof -
  let ?av = "\<lambda>k. events (AvailableSite k)"
  let ?slots = "findAvailableSlots req ?av"
  let ?dur = "minutesDuration (DurationMinutes req)"
  let ?S = "range_Start (TimeRange req)"
  let ?E = "range_End (TimeRange req)"
  let ?free = "\<lambda>c d. \<forall>(user, userEvents) \<in> set es. \<forall>b \<in> set userEvents.
                 instant d < instant (StartTime b) \<or> instant c > instant (EndTime b)"
  have avail: "isSlotAvailable c d (?av k) = ?free c d" for c d k
    using orders by (simp add: isSlotAvailable_iff isFree_def)
  have sound: "End s = Add (Start s) ?dur
      \<and> (\<exists>k::nat. Start s = Add ?S (int k * (15 * Minute)))
      \<and> instant (Start s) < instant ?E \<and> instant (End s) < instant ?E
      \<and> ?free (Start s) (End s)" if "s \<in> set ?slots" for s
  proof -
    from that have "s \<in> set (findLoop req ?av 0 ?S)"
      by (simp add: findAvailableSlots_def)
    from findLoop_sound [OF this] obtain j where
      j: "Start s = Add ?S (int j * step15)" "End s = Add (Start s) ?dur"
         "Before (Start s) ?E" "Before (End s) ?E"
         "isSlotAvailable (Start s) (End s) (?av (0 + j))"
      by blast
    from j(5) have "?free (Start s) (End s)"
      by (simp only: avail)
    with j(1-4) show ?thesis
      by (auto simp: step15_def Before_def)
  qed
  have complete: "\<lparr>Start = c, End = d, Score = 0\<rparr> \<in> set ?slots"
    if "c = Add ?S (int k * (15 * Minute))" "d = Add c ?dur"
       "instant c < instant ?E" "instant d < instant ?E" "?free c d" for k :: nat and c d
  proof -
    have "\<lparr>Start = Add ?S (int k * step15), End = Add (Add ?S (int k * step15)) ?dur, Score = 0\<rparr>
            \<in> set (findLoop req ?av 0 ?S)"
    proof (rule findLoop_complete)
      show "Before (Add ?S (int k * step15)) ?E"
        using that by (simp add: Before_def step15_def)
      show "Before (Add (Add ?S (int k * step15)) ?dur) ?E"
        using that by (simp add: Before_def step15_def)
      show "isSlotAvailable (Add ?S (int k * step15)) (Add (Add ?S (int k * step15)) ?dur) (?av (0 + k))"
        using that by (simp only: avail) (simp add: step15_def)
    qed
    with that show ?thesis
      by (simp add: findAvailableSlots_def step15_def)
  qed
  have ordered: "sorted_wrt (\<lambda>a b. instant (Start a) < instant (Start b)) ?slots"
    by (simp add: findAvailableSlots_def findLoop_sorted)
  have selected: "End best = Add (Start best) ?dur
      \<and> (\<exists>k::nat. Start best = Add ?S (int k * (15 * Minute)))
      \<and> instant (Start best) < instant ?E \<and> instant (End best) < instant ?E
      \<and> ?free (Start best) (End best)"
    if "sortSlice_sorts srt" "FindOptimalSlot srt req events = Returns (Some best, err)" for best err
  proof -
    from FindOptimalSlot_some [OF that] obtain i where
      i: "i < length ?slots"
         "best = (?slots ! i)\<lparr>Score := calculateSlotScore (?slots ! i) (events (GapSite i))
                                          (events (BufferSite i))\<rparr>"
      using scoreSlots_member by blast
    then have mem: "?slots ! i \<in> set ?slots" by simp
    have same: "Start best = Start (?slots ! i)" "End best = End (?slots ! i)"
      using i(2) by simp_all
    show ?thesis
      unfolding same by (rule sound [OF mem])
  qed
  have nowrap: "?dur = DurationMinutes req * Minute"
    if "- (2 ^ 63) \<le> DurationMinutes req * Minute" "DurationMinutes req * Minute < 2 ^ 63"
    using that by (simp add: minutesDuration_def wrap64_id)
  have c1: "\<forall>s \<in> set ?slots. End s = Add (Start s) ?dur
      \<and> (\<exists>k::nat. Start s = Add ?S (int k * (15 * Minute)))
      \<and> instant (Start s) < instant ?E \<and> instant (End s) < instant ?E
      \<and> ?free (Start s) (End s)"
    by (intro ballI) (rule sound)
  have c3: "\<forall>k::nat. \<forall>c d. c = Add ?S (int k * (15 * Minute)) \<and> d = Add c ?dur
        \<and> instant c < instant ?E \<and> instant d < instant ?E \<and> ?free c d
        \<longrightarrow> \<lparr>Start = c, End = d, Score = 0\<rparr> \<in> set ?slots"
  proof (intro allI impI)
    fix k :: nat and c d
    assume h: "c = Add ?S (int k * (15 * Minute)) \<and> d = Add c ?dur
        \<and> instant c < instant ?E \<and> instant d < instant ?E \<and> ?free c d"
    show "\<lparr>Start = c, End = d, Score = 0\<rparr> \<in> set ?slots"
      by (rule complete [of c k d]) (use h in blast)+
  qed
  have c4: "\<forall>best err. sortSlice_sorts srt \<and> FindOptimalSlot srt req events = Returns (Some best, err)
        \<longrightarrow> End best = Add (Start best) ?dur
          \<and> (\<exists>k::nat. Start best = Add ?S (int k * (15 * Minute)))
          \<and> instant (Start best) < instant ?E \<and> instant (End best) < instant ?E
          \<and> ?free (Start best) (End best)"
  proof (intro allI impI)
    fix best err
    assume h: "sortSlice_sorts srt \<and> FindOptimalSlot srt req events = Returns (Some best, err)"
    show "End best = Add (Start best) ?dur
          \<and> (\<exists>k::nat. Start best = Add ?S (int k * (15 * Minute)))
          \<and> instant (Start best) < instant ?E \<and> instant (End best) < instant ?E
          \<and> ?free (Start best) (End best)"
      by (rule selected [of best err]) (use h in blast)+
  qed
  have c5: "- (2 ^ 63) \<le> DurationMinutes req * Minute \<and> DurationMinutes req * Minute < 2 ^ 63
        \<longrightarrow> ?dur = DurationMinutes req * Minute"
    using nowrap by blast
  show ?thesis
    by (rule conjI [OF c1 conjI [OF ordered conjI [OF c3 conjI [OF c4 c5]]]])
qed

theorem findAvailableSlots_grid_witness:
  "(\<forall>k. set ((\<lambda>site. [(''user1'', [])]) (AvailableSite k)) = set [(''user1'', [])])
   \<and> \<lparr>Start = on_2024_09_01 9 15, End = on_2024_09_01 10 15, Score = 0\<rparr>
       \<in> set (findAvailableSlots (request [''user1''] 60 (on_2024_09_01 9 0) (on_2024_09_01 10 30))
                 (\<lambda>k. (\<lambda>site. [(''user1'', [])]) (AvailableSite k)))"
proof -
  have orders: "\<forall>k. set ((\<lambda>site. [(''user1'', [])]) (AvailableSite k)) = set [(''user1'', [])]"
    by simp
  have "\<lparr>Start = on_2024_09_01 9 15, End = on_2024_09_01 10 15, Score = 0\<rparr>
       \<in> set (findAvailableSlots (request [''user1''] 60 (on_2024_09_01 9 0) (on_2024_09_01 10 30))
                 (\<lambda>k. (\<lambda>site. [(''user1'', [])]) (AvailableSite k)))"
    by (rule findAvailableSlots_grid [OF orders, THEN conjunct2, THEN conjunct2, THEN conjunct1,
          rule_format, where k = 1])
       (simp add: request_def on_2024_09_01_def Add_def minutesDuration_def wrap64_def Minute_def
          signed_take_bit_eq_take_bit_minus)
  with orders show ?thesis by blast
qed

text \<open>
  Claim C3, as amended.  Let \<^verbatim>\<open>sort.Slice\<close> meet its contract and let there be a
  candidate.  \<^verbatim>\<open>FindOptimalSlot\<close> returns one of the scored candidates, and no candidate
  has a higher score.  Which of several candidates with that score it returns is decided by the
  sort: it is the one with the earliest start when the sort is stable.
\<close>

theorem FindOptimalSlot_maximal_score:
  assumes "sortSlice_sorts srt"
      and "findAvailableSlots req (\<lambda>k. events (AvailableSite k)) \<noteq> []"
  shows "\<exists>best. FindOptimalSlot srt req events = Returns (Some best, None)
           \<and> best \<in> set (scoreSlots (findAvailableSlots req (\<lambda>k. events (AvailableSite k))) events)
           \<and> (\<forall>t \<in> set (scoreSlots (findAvailableSlots req (\<lambda>k. events (AvailableSite k))) events).
                 Score t \<le> Score best)
           \<and> (sortSlice_stable srt \<longrightarrow>
                (\<forall>t \<in> set (scoreSlots (findAvailableSlots req (\<lambda>k. events (AvailableSite k))) events).
                    Score t = Score best \<longrightarrow> instant (Start best) \<le> instant (Start t)))"
proof -
  let ?scored = "scoreSlots (findAvailableSlots req (\<lambda>k. events (AvailableSite k))) events"
  from FindOptimalSlot_nonempty [OF assms] obtain best rest where
    b: "srt byScore ?scored = best # rest" "FindOptimalSlot srt req events = Returns (Some best, None)"
    by blast
  have ordered: "sorted_wrt (\<lambda>a b. instant (Start a) < instant (Start b)) ?scored"
    by (rule scoreSlots_sorted) (simp add: findAvailableSlots_def findLoop_sorted)
  have "sortSlice_stable srt \<longrightarrow>
          (\<forall>t \<in> set ?scored. Score t = Score best \<longrightarrow> instant (Start best) \<le> instant (Start t))"
    using stable_head_first [of srt ?scored best rest] b(1) ordered by blast
  with sorted_head_maximal [OF assms(1) b(1)] b(2) show ?thesis
    by blast
qed

text \<open>
  A sort that meets the contract and is stable, on a window with the two candidates 09:00 and
  09:15 of equal score: the earlier one is returned.
\<close>

theorem FindOptimalSlot_maximal_score_witness:
  "sortSlice_sorts insertionSort
   \<and> findAvailableSlots (request [''user1''] 60 (on_2024_09_01 9 0) (on_2024_09_01 10 30))
         (\<lambda>k. (\<lambda>site. []) (AvailableSite k)) \<noteq> []
   \<and> sortSlice_stable insertionSort
   \<and> FindOptimalSlot insertionSort
        (request [''user1''] 60 (on_2024_09_01 9 0) (on_2024_09_01 10 30)) (\<lambda>site. [])
      = Returns (Some \<lparr>Start = on_2024_09_01 9 0, End = on_2024_09_01 10 0,
                        Score = 3152519739159347 / 1125899906842624\<rparr>, None)"
proof -
  have h2: "findAvailableSlots (request [''user1''] 60 (on_2024_09_01 9 0) (on_2024_09_01 10 30))
         (\<lambda>k. (\<lambda>site. []) (AvailableSite k)) \<noteq> []"
    by (simp add: slots_0900_1030)
  from FindOptimalSlot_maximal_score [OF insertionSort_sorts h2] obtain best where
    best: "FindOptimalSlot insertionSort
             (request [''user1''] 60 (on_2024_09_01 9 0) (on_2024_09_01 10 30)) (\<lambda>site. [])
           = Returns (Some best, None)"
      "best \<in> set (scoreSlots (findAvailableSlots
                 (request [''user1''] 60 (on_2024_09_01 9 0) (on_2024_09_01 10 30)) (\<lambda>k. [])) (\<lambda>site. []))"
      "sortSlice_stable insertionSort \<longrightarrow>
         (\<forall>t \<in> set (scoreSlots (findAvailableSlots
                 (request [''user1''] 60 (on_2024_09_01 9 0) (on_2024_09_01 10 30)) (\<lambda>k. [])) (\<lambda>site. [])).
            Score t = Score best \<longrightarrow> instant (Start best) \<le> instant (Start t))"
    by blast
  from best(2) have two: "best = \<lparr>Start = on_2024_09_01 9 0, End = on_2024_09_01 10 0,
                        Score = 3152519739159347 / 1125899906842624\<rparr>
      \<or> best = \<lparr>Start = on_2024_09_01 9 15, End = on_2024_09_01 10 15,
                        Score = 3152519739159347 / 1125899906842624\<rparr>"
    unfolding scored_0900_1030 by simp
  then have "Score best = 3152519739159347 / 1125899906842624"
    by auto
  with best(3) insertionSort_stable
  have "instant (Start best) \<le> instant (on_2024_09_01 9 0)"
    unfolding scored_0900_1030 by simp
  then have "best \<noteq> \<lparr>Start = on_2024_09_01 9 15, End = on_2024_09_01 10 15,
                        Score = 3152519739159347 / 1125899906842624\<rparr>"
    by (auto simp: on_2024_09_01_def)
  with two have "best = \<lparr>Start = on_2024_09_01 9 0, End = on_2024_09_01 10 0,
                        Score = 3152519739159347 / 1125899906842624\<rparr>"
    by blast
  with best(1) h2 insertionSort_sorts insertionSort_stable show ?thesis
    by simp
qed

text \<open>
  Claim C3 as it is stated fails on the window from 05:00 to 09:50 with a duration of 30 minutes
  and no busy interval.  There are 18 candidates; those at 09:00 and at 09:15 have the maximal
  score, and the sort of the library puts the one at 09:15 first.
\<close>

theorem FindOptimalSlot_tie_later_start:
  "FindOptimalSlot sortSlice_go
        (request [''user1''] 30 (on_2024_09_01 5 0) (on_2024_09_01 9 50)) (\<lambda>site. [])
      = Returns (Some \<lparr>Start = on_2024_09_01 9 15, End = on_2024_09_01 9 45, Score = 3152519739159347 / 1125899906842624\<rparr>, None)
   \<and> \<lparr>Start = on_2024_09_01 9 0, End = on_2024_09_01 9 30, Score = 3152519739159347 / 1125899906842624\<rparr>
       \<in> set (scoreSlots (findAvailableSlots
                 (request [''user1''] 30 (on_2024_09_01 5 0) (on_2024_09_01 9 50)) (\<lambda>k. []))
               (\<lambda>site. []))
   \<and> instant (on_2024_09_01 9 0) < instant (on_2024_09_01 9 15)"
proof (intro conjI)
  show "FindOptimalSlot sortSlice_go
        (request [''user1''] 30 (on_2024_09_01 5 0) (on_2024_09_01 9 50)) (\<lambda>site. [])
      = Returns (Some \<lparr>Start = on_2024_09_01 9 15, End = on_2024_09_01 9 45, Score = 3152519739159347 / 1125899906842624\<rparr>, None)"
    by (simp add: FindOptimalSlot_def slots_0500_0950 scored_0500_0950 sorted_0500_0950)
  show "\<lparr>Start = on_2024_09_01 9 0, End = on_2024_09_01 9 30, Score = 3152519739159347 / 1125899906842624\<rparr>
       \<in> set (scoreSlots (findAvailableSlots
                 (request [''user1''] 30 (on_2024_09_01 5 0) (on_2024_09_01 9 50)) (\<lambda>k. []))
               (\<lambda>site. []))"
    by (simp add: slots_0500_0950 scored_0500_0950)
  show "instant (on_2024_09_01 9 0) < instant (on_2024_09_01 9 15)"
    by (simp add: on_2024_09_01_def)
qed

text \<open>
  Claim C5, as amended.  For a request whose start and end are different instants,
  \<^verbatim>\<open>validateScheduleRequest\<close> gives the message of the first failing check of this list:
  the participant list is empty; the first offending identifier of the list is empty; the first
  offending identifier repeats an earlier one; the duration is not positive; the duration exceeds
  480 minutes; the start is the zero time; the end is the zero time; the start is not before the
  end; the start is before the instant of the clock; the end is after that instant plus one
  year; the start plus the duration is after the end.  It gives no error when no check fails.
  So a list with an empty identifier and a duplicate is reported by whichever of the two comes
  first in the list.
\<close>

theorem validateScheduleRequest_first_failure:
  assumes "instant (range_Start (TimeRange req)) \<noteq> instant (range_End (TimeRange req))"
  shows "fst (validateScheduleRequest addDate clock req w) =
     firstFailure
       [(ParticipantIDs req = [], msgNoParticipants),
        (\<exists>i. firstOffender (ParticipantIDs req) i \<and> ParticipantIDs req ! i = [], msgEmptyID),
        (\<exists>i. firstOffender (ParticipantIDs req) i \<and> ParticipantIDs req ! i \<noteq> [], msgDuplicate),
        (DurationMinutes req \<le> 0, msgDurationLow),
        (DurationMinutes req > 480, msgDurationHigh),
        (instant (range_Start (TimeRange req)) = 0, msgNoStart),
        (instant (range_End (TimeRange req)) = 0, msgNoEnd),
        (\<not> instant (range_Start (TimeRange req)) < instant (range_End (TimeRange req)), msgStartAfterEnd),
        (instant (range_Start (TimeRange req)) < instant (fst (clock w)), msgPast),
        (instant (range_End (TimeRange req)) > instant (addDate (fst (clock w)) 1 0 0), msgFarFuture),
        (instant (range_Start (TimeRange req)) + DurationMinutes req * Minute
           > instant (range_End (TimeRange req)), msgNoFit)]"
proof -
  have dur: "minutesDuration (DurationMinutes req) = DurationMinutes req * Minute"
    if "0 < DurationMinutes req" "DurationMinutes req \<le> 480"
    using that by (simp add: minutesDuration_def Minute_def wrap64_id)
  obtain now w' where clock: "clock w = (now, w')"
    by (cases "clock w")
  show ?thesis
    using assms dur
    by (simp add: validateScheduleRequest_def checkParticipants_firstOffender clock
          IsZero_def After_def Before_def Add_def Let_def)
       blast
qed

text \<open>A request that passes every check, and one that fails the fifth check of the list.\<close>

theorem validateScheduleRequest_first_failure_witness:
  "instant (range_Start (TimeRange (request [''user1'', ''user2''] 60 (on_2024_09_01 9 0) (on_2024_09_01 17 0))))
     \<noteq> instant (range_End (TimeRange (request [''user1'', ''user2''] 60 (on_2024_09_01 9 0) (on_2024_09_01 17 0))))
   \<and> fst (validateScheduleRequest addDateFlat (fixedClock (on_2024_09_01 8 0))
           (request [''user1'', ''user2''] 60 (on_2024_09_01 9 0) (on_2024_09_01 17 0)) ()) = None
   \<and> fst (validateScheduleRequest addDateFlat (fixedClock (on_2024_09_01 8 0))
           (request [''user1'', ''user2''] 500 (on_2024_09_01 9 0) (on_2024_09_01 17 0)) ())
       = Some msgDurationHigh"
proof -
  have ne: "instant (range_Start (TimeRange (request ids d (on_2024_09_01 9 0) (on_2024_09_01 17 0))))
     \<noteq> instant (range_End (TimeRange (request ids d (on_2024_09_01 9 0) (on_2024_09_01 17 0))))" for ids d
    by (simp add: request_def on_2024_09_01_def)
  have none: "\<not> (\<exists>i. firstOffender [''user1'', ''user2''] i \<and> P i)" for P
    by (auto simp: firstOffender_def offends_def less_Suc_eq numeral_2_eq_2)
  have "fst (validateScheduleRequest addDateFlat (fixedClock (on_2024_09_01 8 0))
           (request [''user1'', ''user2''] 60 (on_2024_09_01 9 0) (on_2024_09_01 17 0)) ()) = None"
    unfolding validateScheduleRequest_first_failure [OF ne]
    by (simp add: request_def none on_2024_09_01_def fixedClock_def addDateFlat_def Add_def Minute_def)
  moreover
  have "fst (validateScheduleRequest addDateFlat (fixedClock (on_2024_09_01 8 0))
           (request [''user1'', ''user2''] 500 (on_2024_09_01 9 0) (on_2024_09_01 17 0)) ())
       = Some msgDurationHigh"
    unfolding validateScheduleRequest_first_failure [OF ne]
    by (simp add: request_def none)
  ultimately show ?thesis
    using ne by blast
qed

text \<open>
  Claim C5 as it is stated fails on a list whose duplicate comes before its empty identifier:
  the loop reports the duplicate.
\<close>

theorem validateScheduleRequest_duplicate_before_empty:
  "fst (validateScheduleRequest addDateFlat (fixedClock (on_2024_09_01 8 0))
         (request [''a'', ''a'', ''''] 60 (on_2024_09_01 9 0) (on_2024_09_01 17 0)) ())
     = Some msgDuplicate
   \<and> '''' \<in> set [''a'', ''a'', '''']
   \<and> msgDuplicate \<noteq> msgEmptyID"
  by (simp add: validateScheduleRequest_def request_def msgDuplicate_def msgEmptyID_def)

text \<open>
  A request whose start equals its end passes the comparison of start and end (the code asks
  whether the start is after the end) and is rejected by the last check.
\<close>

lemma validateScheduleRequest_start_equals_end:
  "fst (validateScheduleRequest addDateFlat (fixedClock (on_2024_09_01 8 0))
         (request [''user1''] 60 (on_2024_09_01 9 0) (on_2024_09_01 9 0)) ())
     = Some msgNoFit"
  by (simp add: validateScheduleRequest_def request_def on_2024_09_01_def fixedClock_def
        addDateFlat_def IsZero_def After_def Before_def Add_def Minute_def minutesDuration_def
        wrap64_def signed_take_bit_eq_take_bit_minus)

text \<open>
  Claim C6.  With a sort that meets its contract, \<^verbatim>\<open>FindOptimalSlot\<close> returns, its
  error is \<^verbatim>\<open>nil\<close>, and its slot is \<^verbatim>\<open>nil\<close> exactly when there is no candidate.
  When the validator gives an error, \<^verbatim>\<open>Schedule\<close> returns that error, and the state is the
  one the validator left, which is the state at the call or that state after reading the clock:
  no repository operation and no search has taken place.  \<^verbatim>\<open>Schedule\<close> returns
  \<^verbatim>\<open>ErrNoAvailableSlot\<close>, which is a value apart from every validation error, exactly when
  the request passed the validator, every participant was found, the events were fetched and
  the search had no candidate.
\<close>

theorem Schedule_no_slot_outcome:
  "(sortSlice_sorts srt \<longrightarrow>
      (\<exists>slot. FindOptimalSlot srt req events = Returns (slot, None)
         \<and> (slot = None \<longleftrightarrow> findAvailableSlots req (\<lambda>k. events (AvailableSite k)) = [])))
   \<and> (\<forall>err w0. validateScheduleRequest (AddDate env) (timeNow env) req w = (Some err, w0)
         \<longrightarrow> Schedule env req w = Returns (Inl (Validation err), w0)
           \<and> (w0 = w \<or> w0 = snd (timeNow env w)))
   \<and> (\<forall>w'. sortSlice_sorts (sortSlice env) \<longrightarrow>
         (Schedule env req w = Returns (Inl ErrNoAvailableSlot, w') \<longleftrightarrow>
            (\<exists>w0 w1 allEvents.
                validateScheduleRequest (AddDate env) (timeNow env) req w = (None, w0)
              \<and> checkUsers env (ParticipantIDs req) w0 = (True, w1)
              \<and> fetchEvents env req (ParticipantIDs req) [] w1 = (Some allEvents, w')
              \<and> findAvailableSlots req (\<lambda>k. mapRange env allEvents (AvailableSite k)) = [])))"
proof (intro conjI allI impI)
  assume "sortSlice_sorts srt"
  then show "\<exists>slot. FindOptimalSlot srt req events = Returns (slot, None)
         \<and> (slot = None \<longleftrightarrow> findAvailableSlots req (\<lambda>k. events (AvailableSite k)) = [])"
    by (rule FindOptimalSlot_outcome)
next
  fix err w0
  assume v: "validateScheduleRequest (AddDate env) (timeNow env) req w = (Some err, w0)"
  then show "Schedule env req w = Returns (Inl (Validation err), w0)"
    by (simp add: Schedule_def)
  from validateScheduleRequest_state [of "AddDate env" "timeNow env" req w] v
  show "w0 = w \<or> w0 = snd (timeNow env w)"
    by simp
next
  fix w'
  assume srt: "sortSlice_sorts (sortSlice env)"
  obtain v w0 where val: "validateScheduleRequest (AddDate env) (timeNow env) req w = (v, w0)"
    by (cases "validateScheduleRequest (AddDate env) (timeNow env) req w")
  obtain found w1 where users: "checkUsers env (ParticipantIDs req) w0 = (found, w1)"
    by (cases "checkUsers env (ParticipantIDs req) w0")
  obtain fetched w2 where fetch: "fetchEvents env req (ParticipantIDs req) [] w1 = (fetched, w2)"
    by (cases "fetchEvents env req (ParticipantIDs req) [] w1")
  show "Schedule env req w = Returns (Inl ErrNoAvailableSlot, w') \<longleftrightarrow>
            (\<exists>w0 w1 allEvents.
                validateScheduleRequest (AddDate env) (timeNow env) req w = (None, w0)
              \<and> checkUsers env (ParticipantIDs req) w0 = (True, w1)
              \<and> fetchEvents env req (ParticipantIDs req) [] w1 = (Some allEvents, w')
              \<and> findAvailableSlots req (\<lambda>k. mapRange env allEvents (AvailableSite k)) = [])"
  proof (cases v)
    case (Some err)
    with val show ?thesis by (simp add: Schedule_def)
  next
    case None
    note v = this
    show ?thesis
    proof (cases found)
      case False
      with val v users show ?thesis by (simp add: Schedule_def)
    next
      case True
      note found = this
      show ?thesis
      proof (cases fetched)
        case None
        with val v users found fetch show ?thesis by (simp add: Schedule_def)
      next
        case (Some allEvents)
        from FindOptimalSlot_outcome [OF srt, of req "mapRange env allEvents"] obtain slot where
          slot: "FindOptimalSlot (sortSlice env) req (mapRange env allEvents) = Returns (slot, None)"
                "slot = None \<longleftrightarrow> findAvailableSlots req (\<lambda>k. mapRange env allEvents (AvailableSite k)) = []"
          by blast
        show ?thesis
        proof (cases slot)
          case None
          with val v users found fetch Some slot show ?thesis
            by (simp add: Schedule_def)
        next
          case (Some best)
          with val v users found fetch \<open>fetched = Some allEvents\<close> slot show ?thesis
            by (simp add: Schedule_def Let_def split: prod.splits bool.splits)
        qed
      qed
    qed
  qed
qed

text \<open>
  The second case of the service tests: the two participants are busy from 09:00 to 10:00 and
  from 10:00 to 11:00, and the window is 09:00 to 11:00.  The same request with a duration of
  500 minutes is turned down by the validator.
\<close>

theorem Schedule_no_slot_outcome_witness:
  "sortSlice_sorts (sortSlice (mockSurroundings [''user1'', ''user2''] (on_2024_09_01 8 0)))
   \<and> Schedule (mockSurroundings [''user1'', ''user2''] (on_2024_09_01 8 0))
        (request [''user1'', ''user2''] 60 (on_2024_09_01 9 0) (on_2024_09_01 11 0))
        [(''user1'', [busy (on_2024_09_01 9 0) (on_2024_09_01 10 0)]),
         (''user2'', [busy (on_2024_09_01 10 0) (on_2024_09_01 11 0)])]
      = Returns (Inl ErrNoAvailableSlot,
          [(''user1'', [busy (on_2024_09_01 9 0) (on_2024_09_01 10 0)]),
           (''user2'', [busy (on_2024_09_01 10 0) (on_2024_09_01 11 0)])])
   \<and> Schedule (mockSurroundings [''user1'', ''user2''] (on_2024_09_01 8 0))
        (request [''user1'', ''user2''] 500 (on_2024_09_01 9 0) (on_2024_09_01 11 0))
        [(''user1'', [busy (on_2024_09_01 9 0) (on_2024_09_01 10 0)]),
         (''user2'', [busy (on_2024_09_01 10 0) (on_2024_09_01 11 0)])]
      = Returns (Inl (Validation msgDurationHigh),
          [(''user1'', [busy (on_2024_09_01 9 0) (on_2024_09_01 10 0)]),
           (''user2'', [busy (on_2024_09_01 10 0) (on_2024_09_01 11 0)])])"
proof -
  let ?env = "mockSurroundings [''user1'', ''user2''] (on_2024_09_01 8 0)"
  let ?req = "request [''user1'', ''user2''] 60 (on_2024_09_01 9 0) (on_2024_09_01 11 0)"
  let ?long = "request [''user1'', ''user2''] 500 (on_2024_09_01 9 0) (on_2024_09_01 11 0)"
  let ?w = "[(''user1'', [busy (on_2024_09_01 9 0) (on_2024_09_01 10 0)]),
            (''user2'', [busy (on_2024_09_01 10 0) (on_2024_09_01 11 0)])]"
  have srt: "sortSlice_sorts (sortSlice ?env)"
    by (simp add: mockSurroundings_def insertionSort_sorts)
  have v: "validateScheduleRequest (AddDate ?env) (timeNow ?env) ?req ?w = (None, ?w)"
    by (simp add: mock_eval)
  have u: "checkUsers ?env (ParticipantIDs ?req) ?w = (True, ?w)"
    by (simp add: mock_eval)
  have f: "fetchEvents ?env ?req (ParticipantIDs ?req) [] ?w = (Some ?w, ?w)"
    by (simp add: mock_eval)
  have s: "findAvailableSlots ?req (\<lambda>k. mapRange ?env ?w (AvailableSite k)) = []"
    by (simp add: findAvailableSlots_def findLoop.simps mock_eval)
  have none: "Schedule ?env ?req ?w = Returns (Inl ErrNoAvailableSlot, ?w)"
    using Schedule_no_slot_outcome [of "sortSlice ?env" ?req "mapRange ?env ?w" ?env ?w,
            THEN conjunct2, THEN conjunct2, rule_format, OF srt, of ?w] v u f s
    by blast
  have bad: "validateScheduleRequest (AddDate ?env) (timeNow ?env) ?long ?w
               = (Some msgDurationHigh, ?w)"
    by (simp add: mock_eval)
  have "Schedule ?env ?long ?w = Returns (Inl (Validation msgDurationHigh), ?w)"
    using Schedule_no_slot_outcome [of "sortSlice ?env" ?long "mapRange ?env ?w" ?env ?w,
            THEN conjunct2, THEN conjunct1, rule_format, OF bad]
    by blast
  with srt none show ?thesis
    by blast
qed

text \<open>
  Claim C9.  For the window from 09:00 to 17:00 of one day, a duration of 60 minutes and no
  busy interval of any participant (the map is empty, or it has a participant with an empty
  list), \<^verbatim>\<open>FindOptimalSlot\<close> with the sort of the library returns the slot from 09:00 to
  10:00.  The 28 candidates come out of the scoring in descending order of score, the four of
  the hour 9 first, and the sort leaves them as they are.
\<close>

theorem FindOptimalSlot_scenario_A:
  "FindOptimalSlot sortSlice_go (request ids 60 (on_2024_09_01 9 0) (on_2024_09_01 17 0))
       (\<lambda>site. [])
     = Returns (Some \<lparr>Start = on_2024_09_01 9 0, End = on_2024_09_01 10 0, Score = 3152519739159347 / 1125899906842624\<rparr>, None)
   \<and> FindOptimalSlot sortSlice_go (request ids 60 (on_2024_09_01 9 0) (on_2024_09_01 17 0))
       (\<lambda>site. [(user, [])])
     = Returns (Some \<lparr>Start = on_2024_09_01 9 0, End = on_2024_09_01 10 0, Score = 3152519739159347 / 1125899906842624\<rparr>, None)"
  using FindOptimalSlot_0900_1700 [of "\<lambda>site. []"]
        FindOptimalSlot_0900_1700 [of "\<lambda>site. [(user, [])]" user]
  by simp

text \<open>The case of the tests: the participant \<^verbatim>\<open>user1\<close> and the empty map.\<close>

theorem FindOptimalSlot_scenario_A_witness:
  "FindOptimalSlot sortSlice_go
       (request [''user1''] 60 (on_2024_09_01 9 0) (on_2024_09_01 17 0)) (\<lambda>site. [])
     = Returns (Some \<lparr>Start = on_2024_09_01 9 0, End = on_2024_09_01 10 0, Score = 3152519739159347 / 1125899906842624\<rparr>, None)"
  using FindOptimalSlot_scenario_A [of "[''user1'']" "''user1''"]
  by simp

text \<open>
  Claim C10.  Let the end of the window be the start plus the duration of the request, and let
  the request pass the other checks of the validator: the participants are there, distinct and
  not empty, the duration is between 1 and 480 minutes, start and end are present, the start is
  not before the instant of the clock and the end is not after that instant plus one year.
  Then the validator accepts the request, and for every map of busy intervals the enumeration
  has no candidate, so that \<^verbatim>\<open>FindOptimalSlot\<close> returns no slot.
\<close>

theorem exact_fit_has_no_candidate:
  assumes fills: "instant (range_End (TimeRange req))
                    = instant (range_Start (TimeRange req)) + DurationMinutes req * Minute"
      and participants: "ParticipantIDs req \<noteq> []" "distinct (ParticipantIDs req)"
                        "[] \<notin> set (ParticipantIDs req)"
      and duration: "0 < DurationMinutes req" "DurationMinutes req \<le> 480"
      and present: "instant (range_Start (TimeRange req)) \<noteq> 0"
                   "instant (range_End (TimeRange req)) \<noteq> 0"
      and future: "instant (fst (clock w)) \<le> instant (range_Start (TimeRange req))"
      and year: "instant (range_End (TimeRange req)) \<le> instant (addDate (fst (clock w)) 1 0 0)"
  shows "fst (validateScheduleRequest addDate clock req w) = None
       \<and> (\<forall>events. findAvailableSlots req (\<lambda>k. events (AvailableSite k)) = []
                 \<and> FindOptimalSlot srt req events = Returns (None, None))"
proof -
  have dur: "minutesDuration (DurationMinutes req) = DurationMinutes req * Minute"
    using duration by (rule minutesDuration_valid)
  have pos: "0 < DurationMinutes req * Minute"
    using duration by (simp add: Minute_def)
  obtain now w' where clock: "clock w = (now, w')"
    by (cases "clock w")
  have ids: "checkParticipants (ParticipantIDs req) {} = None"
    using participants by (simp add: checkParticipants_distinct)
  have valid: "fst (validateScheduleRequest addDate clock req w) = None"
    using fills participants(1) duration present future year pos
    by (simp add: validateScheduleRequest_def ids clock dur
          IsZero_def After_def Before_def Add_def Let_def)
  have empty: "findAvailableSlots req (\<lambda>k. events (AvailableSite k)) = []" for events
    unfolding findAvailableSlots_def
    by (rule findLoop_window_filled) (simp add: fills dur)
  from valid empty show ?thesis
    by (simp add: FindOptimalSlot_empty)
qed

text \<open>A window from 09:00 to 10:00 and a duration of 60 minutes.\<close>

theorem exact_fit_has_no_candidate_witness:
  "fst (validateScheduleRequest addDateFlat (fixedClock (on_2024_09_01 8 0))
          (request [''user1''] 60 (on_2024_09_01 9 0) (on_2024_09_01 10 0)) ()) = None
   \<and> findAvailableSlots (request [''user1''] 60 (on_2024_09_01 9 0) (on_2024_09_01 10 0))
         (\<lambda>k. (\<lambda>site. []) (AvailableSite k)) = []
   \<and> FindOptimalSlot insertionSort (request [''user1''] 60 (on_2024_09_01 9 0) (on_2024_09_01 10 0))
         (\<lambda>site. []) = Returns (None, None)"
proof -
  let ?req = "request [''user1''] 60 (on_2024_09_01 9 0) (on_2024_09_01 10 0)"
  have "fst (validateScheduleRequest addDateFlat (fixedClock (on_2024_09_01 8 0)) ?req ()) = None
       \<and> (\<forall>events. findAvailableSlots ?req (\<lambda>k. events (AvailableSite k)) = []
                 \<and> FindOptimalSlot insertionSort ?req events = Returns (None, None))"
    by (rule exact_fit_has_no_candidate)
       (simp_all add: request_def on_2024_09_01_def fixedClock_def addDateFlat_def Add_def Minute_def)
  then have valid: "fst (validateScheduleRequest addDateFlat (fixedClock (on_2024_09_01 8 0)) ?req ()) = None"
    and search: "\<forall>events. findAvailableSlots ?req (\<lambda>k. events (AvailableSite k)) = []
                 \<and> FindOptimalSlot insertionSort ?req events = Returns (None, None)"
    by (rule conjunct1, rule conjunct2)
  from valid search [rule_format, of "\<lambda>site. []"] show ?thesis
    by simp
qed

end
